theory Spec2Isabelle
  imports Complex_Main "HOL-Library.AList"
begin

section \<open>Data model\<close>

text \<open>
  A pandas cell is a number, a piece of text, or missing (\<open>NaN\<close>, \<open>NaT\<close>). Numbers are
  real numbers: the rounding error of float64 arithmetic is outside the model.
\<close>

datatype cell = Num real | Txt string | NaN

type_synonym column = "cell list"

text \<open>
  A DataFrame: the length of its index and its columns in the order of \<open>df.columns\<close>.
  In a well-formed frame the column labels are distinct and every column has one cell for
  every index entry; \<open>read_csv\<close> gives only such frames.
\<close>

record frame =
  nrows :: nat
  cols :: "(string \<times> column) list"

definition columns :: "frame \<Rightarrow> string list" where
  "columns df = map fst (cols df)"

definition wf_frame :: "frame \<Rightarrow> bool" where
  "wf_frame df \<longleftrightarrow> distinct (columns df) \<and> list_all (\<lambda>p. length (snd p) = nrows df) (cols df)"

datatype error =
  KeyError string | ValueError string | IndexError string | TypeError string | LibraryError string

text \<open>\<open>df[name]\<close>: the column, or KeyError.\<close>

definition getitem :: "frame \<Rightarrow> string \<Rightarrow> error + column" where
  "getitem df name = (case map_of (cols df) name of None \<Rightarrow> Inl (KeyError name) | Some c \<Rightarrow> Inr c)"

text \<open>
  \<open>df[name] = series\<close>: an existing column is replaced where it stands, a new label is
  appended as the last column.
\<close>

definition setitem :: "frame \<Rightarrow> string \<Rightarrow> column \<Rightarrow> frame" where
  "setitem df name c = df\<lparr>cols := AList.update name c (cols df)\<rparr>"

text \<open>\<open>series.shift(i)\<close>: the values move down by \<open>i\<close> places; the first \<open>i\<close> become missing.\<close>

definition shift :: "nat \<Rightarrow> column \<Rightarrow> column" where
  "shift i c = take (length c) (replicate i NaN @ c)"

text \<open>\<open>df.dropna()\<close>: a new frame without the rows that hold a missing cell in any column.\<close>

definition row_has_nan :: "frame \<Rightarrow> nat \<Rightarrow> bool" where
  "row_has_nan df j = list_ex (\<lambda>p. snd p ! j = NaN) (cols df)"

definition take_rows :: "frame \<Rightarrow> nat list \<Rightarrow> frame" where
  "take_rows df js = \<lparr>nrows = length js, cols = map (\<lambda>p. (fst p, map (\<lambda>j. snd p ! j) js)) (cols df)\<rparr>"

definition dropna :: "frame \<Rightarrow> frame" where
  "dropna df = take_rows df (filter (\<lambda>j. \<not> row_has_nan df j) [0..<nrows df])"

text \<open>\<open>str(i)\<close> of a natural number, as the f-string prints it.\<close>

definition digit_char :: "nat \<Rightarrow> char" where
  "digit_char d = char_of (48 + d)"

fun str_nat :: "nat \<Rightarrow> string" where
  "str_nat n = (if n < 10 then [digit_char n] else str_nat (n div 10) @ [digit_char (n mod 10)])"

declare str_nat.simps [simp del]

definition endswith :: "string \<Rightarrow> string \<Rightarrow> bool" where
  "endswith s t \<longleftrightarrow> length t \<le> length s \<and> drop (length s - length t) s = t"

section \<open>Feature builder (WeatherPredictionModel.prepare\_data)\<close>

definition feature_columns :: "string list" where
  "feature_columns = [''temperature'', ''humidity'', ''wind_speed'', ''precipitation'', ''pressure'']"

definition lag_name :: "string \<Rightarrow> nat \<Rightarrow> string" where
  "lag_name col i = col @ ''_lag_'' @ str_nat i"

definition lag_suffixes :: "string list" where
  "lag_suffixes = [''lag_1'', ''lag_2'', ''lag_3'', ''lag_4'', ''lag_5'', ''lag_6'', ''lag_7'']"

definition is_lag_column :: "string \<Rightarrow> bool" where
  "is_lag_column col = list_ex (endswith col) lag_suffixes"

text \<open>
  The inner loop \<open>for col in self.feature_columns\<close> at lag \<open>i\<close>. The frame is the caller's
  object and is changed in place, so the loop returns it also when \<open>df[col]\<close> raises.
\<close>

fun lag_columns_loop :: "frame \<Rightarrow> nat \<Rightarrow> string list \<Rightarrow> frame \<times> error option" where
  "lag_columns_loop df i [] = (df, None)"
| "lag_columns_loop df i (col # rest) =
     (case getitem df col of
        Inl e \<Rightarrow> (df, Some e)
      | Inr c \<Rightarrow> lag_columns_loop (setitem df (lag_name col i) (shift i c)) i rest)"

text \<open>The outer loop \<open>for i in range(1, n_steps + 1)\<close>.\<close>

fun lag_steps_loop :: "frame \<Rightarrow> nat list \<Rightarrow> frame \<times> error option" where
  "lag_steps_loop df [] = (df, None)"
| "lag_steps_loop df (i # rest) =
     (case lag_columns_loop df i feature_columns of
        (df', Some e) \<Rightarrow> (df', Some e)
      | (df', None) \<Rightarrow> lag_steps_loop df' rest)"

text \<open>
  \<open>df[feature_cols]\<close> where \<open>feature_cols\<close> is drawn from \<open>df.columns\<close>: the columns whose
  label ends with one of the seven suffixes, in the order of the frame.
\<close>

definition select_lag_columns :: "frame \<Rightarrow> frame" where
  "select_lag_columns df = df\<lparr>cols := filter (\<lambda>p. is_lag_column (fst p)) (cols df)\<rparr>"

text \<open>
  \<open>prepare_data(df, target_column, n_steps)\<close>. The first component is the caller's frame
  after the call; the second is the exception raised or the pair \<open>(X, y)\<close>.
\<close>

definition prepare_data :: "frame \<Rightarrow> string \<Rightarrow> nat \<Rightarrow> frame \<times> (error + frame \<times> column)" where
  "prepare_data df target_column n_steps =
     (case lag_steps_loop df [1..<n_steps + 1] of
        (df', Some e) \<Rightarrow> (df', Inl e)
      | (df', None) \<Rightarrow>
          (let d = dropna df';
               X = select_lag_columns d
           in case getitem d target_column of
                Inl e \<Rightarrow> (df', Inl e)
              | Inr y \<Rightarrow> (df', Inr (X, y))))"

section \<open>Regressor bank (WeatherPredictionModel.train, predict\_next\_day)\<close>

text \<open>
  scikit-learn is not part of the repository. Its estimators are parameters of the model:
  a generator seeded by \<open>random_state\<close>, the permutation that generator draws, and the
  fit, transform and predict operations of \<open>StandardScaler\<close> and
  \<open>RandomForestRegressor\<close>, each of which may raise. Arrays are lists of rows.
\<close>

record ('g, 's, 'm) sklearn =
  rng_seeded :: "nat \<Rightarrow> 'g"
  rng_permutation :: "'g \<Rightarrow> nat \<Rightarrow> nat list"
  scaler_fit :: "cell list list \<Rightarrow> error + 's"
  scaler_transform :: "'s \<Rightarrow> cell list list \<Rightarrow> error + real list list"
  forest_fit :: "nat \<Rightarrow> 'g \<Rightarrow> real list list \<Rightarrow> column \<Rightarrow> error + 'm"
  forest_predict :: "'m \<Rightarrow> real list list \<Rightarrow> error + real list"

text \<open>\<open>df.values\<close>: the rows of the frame.\<close>

definition frame_values :: "frame \<Rightarrow> cell list list" where
  "frame_values df = map (\<lambda>j. map (\<lambda>p. snd p ! j) (cols df)) [0..<nrows df]"

text \<open>
  \<open>train_test_split(X, y, test_size=0.2, random_state=42)\<close>. The library takes
  \<open>n_test = ceil(0.2 * n)\<close> and \<open>n_train = n - n_test\<close>, raises ValueError when the
  training part would be empty, and otherwise cuts the seeded permutation of the row
  numbers into the test part and the training part. The float product \<open>0.2 * n\<close> has the
  ceiling of \<open>n / 5\<close> for every number of rows a table can have, so the ceiling is taken
  on the integers.
\<close>

text \<open>The message of the ValueError that the library raises for \<open>n\<close> samples.\<close>

definition empty_train_set_message :: "nat \<Rightarrow> string" where
  "empty_train_set_message n =
     ''With n_samples='' @ str_nat n @
     '', test_size=0.2 and train_size=None, the resulting train set will be empty. '' @
     ''Adjust any of the aforementioned parameters.''"

definition train_test_split ::
  "('g, 's, 'm) sklearn \<Rightarrow> frame \<Rightarrow> column \<Rightarrow> error + (frame \<times> frame \<times> column \<times> column)" where
  "train_test_split lib X y =
     (let n = nrows X;
          n_test = (n + 4) div 5;
          n_train = n - n_test
      in if n_train = 0 then Inl (ValueError (empty_train_set_message n))
         else
           (let perm = rng_permutation lib (rng_seeded lib 42) n;
                ind_test = take n_test perm;
                ind_train = take n_train (drop n_test perm)
            in Inr (take_rows X ind_train, take_rows X ind_test,
                    map (\<lambda>j. y ! j) ind_train, map (\<lambda>j. y ! j) ind_test)))"

text \<open>
  The body of the loop of \<open>train\<close> between \<open>prepare_data\<close> and the two stores: split,
  fit the scaler on the training part, fit the forest (100 trees, seed 42), predict the
  test part. The metrics are only printed and are left out.
\<close>

definition fit_target :: "('g, 's, 'm) sklearn \<Rightarrow> frame \<Rightarrow> column \<Rightarrow> error + ('s \<times> 'm)" where
  "fit_target lib X y =
     (case train_test_split lib X y of
        Inl e \<Rightarrow> Inl e
      | Inr (X_train, X_test, y_train, y_test) \<Rightarrow>
     (case scaler_fit lib (frame_values X_train) of
        Inl e \<Rightarrow> Inl e
      | Inr scaler \<Rightarrow>
     (case scaler_transform lib scaler (frame_values X_train) of
        Inl e \<Rightarrow> Inl e
      | Inr X_train_scaled \<Rightarrow>
     (case scaler_transform lib scaler (frame_values X_test) of
        Inl e \<Rightarrow> Inl e
      | Inr X_test_scaled \<Rightarrow>
     (case forest_fit lib 100 (rng_seeded lib 42) X_train_scaled y_train of
        Inl e \<Rightarrow> Inl e
      | Inr model \<Rightarrow>
     (case forest_predict lib model X_test_scaled of
        Inl e \<Rightarrow> Inl e
      | Inr y_pred \<Rightarrow> Inr (scaler, model)))))))"

text \<open>The object: \<open>self.models\<close> and \<open>self.scalers\<close>, both empty after \<open>__init__\<close>.\<close>

record ('s, 'm) bank =
  models :: "string \<rightharpoonup> 'm"
  scalers :: "string \<rightharpoonup> 's"

definition new_bank :: "('s, 'm) bank" where
  "new_bank = \<lparr>models = Map.empty, scalers = Map.empty\<rparr>"

text \<open>
  \<open>train(df)\<close>: the loop over the tracked attributes. It returns the caller's frame and
  the object as they are when the loop ends or an exception leaves it, and the exception.
  Writing the plot file after the stores is left out.
\<close>

fun train_loop ::
  "('g, 's, 'm) sklearn \<Rightarrow> ('s, 'm) bank \<Rightarrow> frame \<Rightarrow> string list
     \<Rightarrow> frame \<times> ('s, 'm) bank \<times> error option" where
  "train_loop lib self df [] = (df, self, None)"
| "train_loop lib self df (target # rest) =
     (case prepare_data df target 7 of
        (df', Inl e) \<Rightarrow> (df', self, Some e)
      | (df', Inr (X, y)) \<Rightarrow>
          (case fit_target lib X y of
             Inl e \<Rightarrow> (df', self, Some e)
           | Inr (scaler, model) \<Rightarrow>
               train_loop lib
                 (self\<lparr>models := (models self)(target \<mapsto> model),
                        scalers := (scalers self)(target \<mapsto> scaler)\<rparr>)
                 df' rest))"

definition train ::
  "('g, 's, 'm) sklearn \<Rightarrow> ('s, 'm) bank \<Rightarrow> frame \<Rightarrow> frame \<times> ('s, 'm) bank \<times> error option" where
  "train lib self df = train_loop lib self df feature_columns"

text \<open>
  \<open>round(x, ndigits)\<close>: to the nearest multiple of \<open>10 ^ -ndigits\<close>, a tie going to the
  even one.
\<close>

definition rint :: "real \<Rightarrow> int" where
  "rint x = (let f = \<lfloor>x\<rfloor>; d = x - of_int f
             in if d < 1 / 2 then f else if 1 / 2 < d then f + 1
                else if even f then f else f + 1)"

definition round_ndigits :: "nat \<Rightarrow> real \<Rightarrow> real" where
  "round_ndigits ndigits x = of_int (rint (x * 10 ^ ndigits)) / 10 ^ ndigits"

text \<open>
  The body of the \<open>if len(X) > 0\<close> branch of \<open>predict_next_day\<close>: the last feature
  row is scaled with the stored scaler and given to the stored forest, and the first
  prediction is rounded to two places. \<open>self.scalers[target]\<close> and
  \<open>self.models[target]\<close> raise KeyError when nothing is stored, and \<open>[0]\<close> raises
  IndexError on an empty prediction array.
\<close>

definition predict_target ::
  "('g, 's, 'm) sklearn \<Rightarrow> ('s, 'm) bank \<Rightarrow> frame \<Rightarrow> string \<Rightarrow> error + real" where
  "predict_target lib self X target =
     (let last_features = [last (frame_values X)]
      in case scalers self target of
           None \<Rightarrow> Inl (KeyError target)
         | Some scaler \<Rightarrow>
      (case scaler_transform lib scaler last_features of
           Inl e \<Rightarrow> Inl e
         | Inr last_features_scaled \<Rightarrow>
      (case models self target of
           None \<Rightarrow> Inl (KeyError target)
         | Some model \<Rightarrow>
      (case forest_predict lib model last_features_scaled of
           Inl e \<Rightarrow> Inl e
         | Inr [] \<Rightarrow> Inl (IndexError ''index 0 is out of bounds'')
         | Inr (pred # _) \<Rightarrow> Inr (round_ndigits 2 pred)))))"

text \<open>
  \<open>predict_next_day(df)\<close>: the loop over the tracked attributes with the dictionary
  \<open>predictions\<close> built so far. An attribute whose feature set is empty is passed over.
\<close>

fun predict_loop ::
  "('g, 's, 'm) sklearn \<Rightarrow> ('s, 'm) bank \<Rightarrow> frame \<Rightarrow> (string \<rightharpoonup> real) \<Rightarrow> string list
     \<Rightarrow> frame \<times> (error + (string \<rightharpoonup> real))" where
  "predict_loop lib self df predictions [] = (df, Inr predictions)"
| "predict_loop lib self df predictions (target # rest) =
     (case prepare_data df target 7 of
        (df', Inl e) \<Rightarrow> (df', Inl e)
      | (df', Inr (X, y)) \<Rightarrow>
          if 0 < nrows X then
            (case predict_target lib self X target of
               Inl e \<Rightarrow> (df', Inl e)
             | Inr pred \<Rightarrow> predict_loop lib self df' (predictions(target \<mapsto> pred)) rest)
          else predict_loop lib self df' predictions rest)"

definition predict_next_day ::
  "('g, 's, 'm) sklearn \<Rightarrow> ('s, 'm) bank \<Rightarrow> frame \<Rightarrow> frame \<times> (error + (string \<rightharpoonup> real))" where
  "predict_next_day lib self df = predict_loop lib self df Map.empty feature_columns"

section \<open>Forecast service (app.py: /api/initialize, /api/predict)\<close>

text \<open>
  The process holds the global \<open>model\<close>, \<open>None\<close> at start. Reading and parsing
  \<open>weather_data.csv\<close> is input/output: the state carries what that read gives, a frame
  or the exception.
\<close>

record ('s, 'm) app =
  model :: "('s, 'm) bank option"
  weather_data_csv :: "error + frame"

definition initial_app :: "error + frame \<Rightarrow> ('s, 'm) app" where
  "initial_app file = \<lparr>model = None, weather_data_csv = file\<rparr>"

text \<open>\<open>str(e)\<close>: a KeyError prints the key in quotes, the others their message.\<close>

fun str_error :: "error \<Rightarrow> string" where
  "str_error (KeyError k) = [CHR 39] @ k @ [CHR 39]"
| "str_error (ValueError m) = m"
| "str_error (IndexError m) = m"
| "str_error (TypeError m) = m"
| "str_error (LibraryError m) = m"

text \<open>A JSON answer: \<open>status\<close> with a \<open>message\<close>, or \<open>status\<close> with \<open>predictions\<close>.\<close>

datatype body = StatusMessage string string | StatusPredictions string "string \<rightharpoonup> real"

datatype response = Response nat body

text \<open>
  \<open>initialize_model\<close> binds the global to a new object before it trains it, so the
  object stays bound when \<open>train\<close> raises.
\<close>

definition initialize_model ::
  "('g, 's, 'm) sklearn \<Rightarrow> ('s, 'm) app \<Rightarrow> ('s, 'm) app \<times> response" where
  "initialize_model lib st =
     (case weather_data_csv st of
        Inl e \<Rightarrow> (st, Response 500 (StatusMessage ''error'' (str_error e)))
      | Inr df \<Rightarrow>
          (case train lib new_bank df of
             (df', self, Some e) \<Rightarrow>
               (st\<lparr>model := Some self\<rparr>, Response 500 (StatusMessage ''error'' (str_error e)))
           | (df', self, None) \<Rightarrow>
               (st\<lparr>model := Some self\<rparr>,
                Response 200 (StatusMessage ''success'' ''Model initialized and trained successfully''))))"

definition predict :: "('g, 's, 'm) sklearn \<Rightarrow> ('s, 'm) app \<Rightarrow> response" where
  "predict lib st =
     (case model st of
        None \<Rightarrow>
          Response 400
            (StatusMessage ''error'' ''Model not initialized. Please call /api/initialize first'')
      | Some self \<Rightarrow>
          (case weather_data_csv st of
             Inl e \<Rightarrow> Response 500 (StatusMessage ''error'' (str_error e))
           | Inr df \<Rightarrow>
               (case predict_next_day lib self df of
                  (df', Inl e) \<Rightarrow> Response 500 (StatusMessage ''error'' (str_error e))
                | (df', Inr predictions) \<Rightarrow>
                    Response 200 (StatusPredictions ''success'' predictions))))"

section \<open>Historical store (WeatherDataAnalyzer)\<close>

text \<open>
  The two append-only CSV files, each a list of records; a record is the list of its
  fields in the order of the header. Writing to the files is taken to succeed.
\<close>

record store =
  current_weather :: "cell list list"
  historical_weather :: "cell list list"

text \<open>
  The lookups \<open>weather_data[key]\<close> of a dictionary display, in the order they are
  written: the first missing key raises KeyError.
\<close>

fun lookup_all :: "(string \<rightharpoonup> cell) \<Rightarrow> string list \<Rightarrow> error + cell list" where
  "lookup_all weather_data [] = Inr []"
| "lookup_all weather_data (key # rest) =
     (case weather_data key of
        None \<Rightarrow> Inl (KeyError key)
      | Some v \<Rightarrow>
          (case lookup_all weather_data rest of
             Inl e \<Rightarrow> Inl e
           | Inr vs \<Rightarrow> Inr (v # vs)))"

text \<open>The keys read for the two records, after the time stamp and the date.\<close>

definition current_keys :: "string list" where
  "current_keys = [''city'', ''temperature'', ''feels_like'', ''humidity'', ''pressure'',
                   ''wind_speed'', ''description'', ''icon'']"

definition historical_keys :: "string list" where
  "historical_keys = [''city'', ''temperature'', ''humidity'', ''wind_speed'', ''pressure'',
                      ''description'']"

text \<open>
  \<open>store_current_weather(weather_data)\<close>. The two readings of the clock, formatted, are
  parameters. Any exception is caught and makes the result \<open>False\<close>; the record for the
  current-conditions file is built before anything is written.
\<close>

definition store_current_weather ::
  "string \<Rightarrow> string \<Rightarrow> (string \<rightharpoonup> cell) \<Rightarrow> store \<Rightarrow> bool \<times> store" where
  "store_current_weather now_timestamp now_date weather_data st =
     (case lookup_all weather_data current_keys of
        Inl e \<Rightarrow> (False, st)
      | Inr new_data \<Rightarrow>
          (let st1 = st\<lparr>current_weather := current_weather st @ [Txt now_timestamp # new_data]\<rparr>
           in case lookup_all weather_data historical_keys of
                Inl e \<Rightarrow> (False, st1)
              | Inr historical_data \<Rightarrow>
                  (True, st1\<lparr>historical_weather :=
                               historical_weather st1 @ [Txt now_date # historical_data]\<rparr>)))"




















section \<open>Auxiliary notions for the proofs\<close>

text \<open>
  These definitions are not part of the program. They name what the proofs talk about:
  the value a decimal string denotes, a sequence of column assignments, the assignments the
  two loops of \<open>prepare_data\<close> make, and the conditions on a table.
\<close>

definition read_nat :: "string \<Rightarrow> nat" where
  "read_nat s = foldl (\<lambda>a ch. 10 * a + (of_char ch - 48)) 0 s"

definition write_all :: "(string \<times> column) list \<Rightarrow> (string \<times> column) list \<Rightarrow> (string \<times> column) list" where
  "write_all ws al = fold (\<lambda>w. AList.update (fst w) (snd w)) ws al"

definition lag_writes :: "(string \<Rightarrow> column) \<Rightarrow> nat list \<Rightarrow> (string \<times> column) list" where
  "lag_writes f js = concat (map (\<lambda>i. map (\<lambda>c. (lag_name c i, shift i (f c))) feature_columns) js)"

definition column_of :: "frame \<Rightarrow> string \<Rightarrow> column" where
  "column_of df name = (case map_of (cols df) name of None \<Rightarrow> [] | Some c \<Rightarrow> c)"

definition has_features :: "frame \<Rightarrow> bool" where
  "has_features df \<longleftrightarrow> list_all (\<lambda>c. c \<in> set (columns df)) feature_columns"

definition with_lags :: "frame \<Rightarrow> nat \<Rightarrow> frame" where
  "with_lags df n = df\<lparr>cols := write_all (lag_writes (column_of df) [1..<n + 1]) (cols df)\<rparr>"

definition no_missing :: "frame \<Rightarrow> bool" where
  "no_missing df \<longleftrightarrow> list_all (\<lambda>p. NaN \<notin> set (snd p)) (cols df)"

section \<open>Example tables\<close>

text \<open>Three days of observations: fewer than the eight rows that seven lags need.\<close>

definition three_days :: frame where
  "three_days = \<lparr>nrows = 3, cols =
     [(''date'', [Txt ''2023-01-01'', Txt ''2023-01-02'', Txt ''2023-01-03'']),
      (''temperature'', [Num 20, Num 21, Num 19]),
      (''humidity'', [Num 60, Num 61, Num 62]),
      (''wind_speed'', [Num 4, Num 5, Num 3]),
      (''precipitation'', [Num 0, Num 0, Num 1]),
      (''pressure'', [Num 1013, Num 1012, Num 1011])]\<rparr>"

text \<open>Eight days of observations with every cell present.\<close>

definition eight_days :: frame where
  "eight_days = \<lparr>nrows = 8, cols =
     [(''date'', [Txt ''2023-01-01'', Txt ''2023-01-02'', Txt ''2023-01-03'', Txt ''2023-01-04'',
                  Txt ''2023-01-05'', Txt ''2023-01-06'', Txt ''2023-01-07'', Txt ''2023-01-08'']),
      (''temperature'', [Num 20, Num 21, Num 19, Num 18, Num 22, Num 23, Num 21, Num 20]),
      (''humidity'', [Num 60, Num 61, Num 62, Num 63, Num 64, Num 65, Num 66, Num 67]),
      (''wind_speed'', [Num 4, Num 5, Num 3, Num 2, Num 6, Num 7, Num 5, Num 4]),
      (''precipitation'', [Num 0, Num 0, Num 1, Num 0, Num 2, Num 0, Num 0, Num 3]),
      (''pressure'', [Num 1013, Num 1012, Num 1011, Num 1010, Num 1014, Num 1015, Num 1016, Num 1017])]\<rparr>"

text \<open>The same eight days with the optional city, which is missing on the last day.\<close>

definition eight_days_city_gap :: frame where
  "eight_days_city_gap = eight_days\<lparr>cols := cols eight_days @
     [(''city'', [Txt ''Pune'', Txt ''Pune'', Txt ''Pune'', Txt ''Pune'',
                  Txt ''Pune'', Txt ''Pune'', Txt ''Pune'', NaN])]\<rparr>"

text \<open>The feature table and the target column that \<open>prepare_data\<close> returns at seven lags.\<close>

definition features_of :: "frame \<Rightarrow> frame" where
  "features_of df = select_lag_columns (dropna (with_lags df 7))"

definition target_of :: "frame \<Rightarrow> string \<Rightarrow> column" where
  "target_of df target = (case getitem (dropna (with_lags df 7)) target of Inl e \<Rightarrow> [] | Inr y \<Rightarrow> y)"


text \<open>
  A stand-in for the library, for concrete runs: the scaler keeps the numbers as they are
  and the forest predicts the first training target for every row. None of its operations
  raises.
\<close>

definition stub_sklearn :: "(nat, unit, real) sklearn" where
  "stub_sklearn =
     \<lparr>rng_seeded = (\<lambda>seed. seed),
      rng_permutation = (\<lambda>g n. rev [0..<n]),
      scaler_fit = (\<lambda>X. Inr ()),
      scaler_transform = (\<lambda>s X. Inr (map (map (\<lambda>c. case c of Num x \<Rightarrow> x | _ \<Rightarrow> 0)) X)),
      forest_fit = (\<lambda>n g X y. Inr (case y of Num v # _ \<Rightarrow> v | _ \<Rightarrow> 0)),
      forest_predict = (\<lambda>m X. Inr (map (\<lambda>r. m) X))\<rparr>"

text \<open>An object that holds a scaler and a forest for each of the five attributes.\<close>

definition stub_bank :: "(unit, real) bank" where
  "stub_bank =
     \<lparr>models = (\<lambda>t. if t \<in> set feature_columns then Some 20 else None),
      scalers = (\<lambda>t. if t \<in> set feature_columns then Some () else None)\<rparr>"


text \<open>Ten days of observations at a constant temperature of 20.\<close>

definition ten_days :: frame where
  "ten_days = \<lparr>nrows = 10, cols =
     [(''date'', [Txt ''2023-01-01'', Txt ''2023-01-02'', Txt ''2023-01-03'', Txt ''2023-01-04'',
                  Txt ''2023-01-05'', Txt ''2023-01-06'', Txt ''2023-01-07'', Txt ''2023-01-08'',
                  Txt ''2023-01-09'', Txt ''2023-01-10'']),
      (''temperature'', [Num 20, Num 20, Num 20, Num 20, Num 20, Num 20, Num 20, Num 20, Num 20, Num 20]),
      (''humidity'', [Num 60, Num 61, Num 62, Num 63, Num 64, Num 65, Num 66, Num 67, Num 68, Num 69]),
      (''wind_speed'', [Num 4, Num 5, Num 3, Num 2, Num 6, Num 7, Num 5, Num 4, Num 3, Num 2]),
      (''precipitation'', [Num 0, Num 0, Num 1, Num 0, Num 2, Num 0, Num 0, Num 3, Num 0, Num 0]),
      (''pressure'', [Num 1013, Num 1012, Num 1011, Num 1010, Num 1014, Num 1015, Num 1016,
                      Num 1017, Num 1018, Num 1019])]\<rparr>"

text \<open>A reading as \<open>/api/weather/current\<close> builds it, and a store with empty files.\<close>

definition sample_reading :: "string \<rightharpoonup> cell" where
  "sample_reading =
     [''temperature'' \<mapsto> Num 21.5, ''feels_like'' \<mapsto> Num 20.9, ''humidity'' \<mapsto> Num 64,
      ''pressure'' \<mapsto> Num 1012, ''wind_speed'' \<mapsto> Num 12.3, ''description'' \<mapsto> Txt ''clear sky'',
      ''icon'' \<mapsto> Txt ''01d'', ''city'' \<mapsto> Txt ''Pune'', ''country'' \<mapsto> Txt ''IN'',
      ''timestamp'' \<mapsto> Txt ''2024-05-01 10:00:00'']"

definition empty_store :: store where
  "empty_store = \<lparr>current_weather = [], historical_weather = []\<rparr>"





section \<open>Column labels\<close>

lemma digit_char_val: "d < 10 \<Longrightarrow> (of_char (digit_char d) :: nat) = 48 + d"
  by (simp add: digit_char_def)

lemma read_nat_str_nat: "read_nat (str_nat n) = n"
proof (induction n rule: str_nat.induct)
  case (1 n)
  show ?case
  proof (cases "n < 10")
    case True
    then show ?thesis by (subst str_nat.simps) (simp add: read_nat_def digit_char_val)
  next
    case False
    then have "read_nat (str_nat (n div 10)) = n div 10" using 1 by simp
    then show ?thesis using False
      by (subst str_nat.simps) (simp add: read_nat_def digit_char_val)
  qed
qed

lemma str_nat_inj: "str_nat m = str_nat n \<Longrightarrow> m = n"
  by (metis read_nat_str_nat)

lemma str_nat_chars: "ch \<in> set (str_nat n) \<Longrightarrow> \<exists>d<10. ch = digit_char d"
proof (induction n rule: str_nat.induct)
  case (1 n)
  show ?case
  proof (cases "n < 10")
    case True
    then show ?thesis using 1(2) by (subst (asm) str_nat.simps) auto
  next
    case False
    then show ?thesis using 1 
      by (subst (asm) (2) str_nat.simps) (auto intro: exI[of _ "n mod 10"])
  qed
qed

lemma str_nat_nonempty: "str_nat n \<noteq> []"
  by (subst str_nat.simps) simp

lemma str_nat_last: "last (str_nat n) = digit_char (n mod 10)"
  by (subst str_nat.simps) simp

lemma underscore_not_digit: "CHR ''_'' \<notin> set (str_nat n)"
proof
  assume "CHR ''_'' \<in> set (str_nat n)"
  then obtain d where "d < 10" "CHR ''_'' = digit_char d" using str_nat_chars by blast
  then have "(of_char (CHR ''_'') :: nat) = 48 + d" using digit_char_val by metis
  then show False using \<open>d < 10\<close> by simp
qed

lemma lag_name_inj: "lag_name c i = lag_name c' i' \<Longrightarrow> c = c' \<and> i = i'"
proof -
  assume eq: "lag_name c i = lag_name c' i'"
  have r: "\<And>c i. takeWhile (\<lambda>ch. ch \<noteq> CHR ''_'') (rev (lag_name c i)) = rev (str_nat i)"
    using underscore_not_digit by (simp add: lag_name_def takeWhile_append)
  from eq have "rev (str_nat i) = rev (str_nat i')" using r by metis
  then have i: "i = i'" using str_nat_inj by simp
  with eq show ?thesis by (simp add: lag_name_def)
qed

lemma lag_name_last: "last (lag_name c i) = digit_char (i mod 10)"
  by (simp add: lag_name_def str_nat_nonempty str_nat_last)

lemma lag_name_not_tracked: "lag_name c i \<notin> set feature_columns"
proof
  assume a: "lag_name c i \<in> set feature_columns"
  have "(of_char (last (lag_name c i)) :: nat) = 48 + i mod 10"
    by (simp add: lag_name_last digit_char_val)
  then have "(of_char (last (lag_name c i)) :: nat) < 58" by simp
  moreover have "\<forall>t \<in> set feature_columns. (of_char (last t) :: nat) \<ge> 58"
    by (simp add: feature_columns_def)
  ultimately show False using a by fastforce
qed

section \<open>Sequences of column assignments\<close>

lemma write_all_Nil [simp]: "write_all [] al = al"
  by (simp add: write_all_def)

lemma write_all_Cons [simp]: "write_all (w # ws) al = write_all ws (AList.update (fst w) (snd w) al)"
  by (simp add: write_all_def)

lemma write_all_append: "write_all (ws @ vs) al = write_all vs (write_all ws al)"
  by (simp add: write_all_def)

lemma map_of_write_all_other:
  "k \<notin> fst ` set ws \<Longrightarrow> map_of (write_all ws al) k = map_of al k"
  by (induction ws arbitrary: al) (auto simp: update_conv')

lemma map_of_write_all_hit:
  "distinct (map fst ws) \<Longrightarrow> (k, v) \<in> set ws \<Longrightarrow> map_of (write_all ws al) k = Some v"
proof (induction ws arbitrary: al)
  case Nil
  then show ?case by simp
next
  case (Cons w ws)
  show ?case
  proof (cases "(k, v) = w")
    case True
    then have "k \<notin> fst ` set ws" using Cons.prems(1) by force
    then have "map_of (write_all ws (AList.update k v al)) k = map_of (AList.update k v al) k"
      by (rule map_of_write_all_other)
    then show ?thesis using True by (auto simp: update_conv')
  next
    case False
    then show ?thesis using Cons by auto
  qed
qed

lemma set_update_subset: "set (AList.update k v al) \<subseteq> insert (k, v) (set al)"
  by (induction al) auto

lemma set_write_all_subset: "set (write_all ws al) \<subseteq> set ws \<union> set al"
proof (induction ws arbitrary: al)
  case Nil
  then show ?case by simp
next
  case (Cons w ws)
  have "set (write_all ws (AList.update (fst w) (snd w) al)) \<subseteq> set ws \<union> set (AList.update (fst w) (snd w) al)"
    by (rule Cons.IH)
  also have "\<dots> \<subseteq> set ws \<union> insert w (set al)"
    using set_update_subset[of "fst w" "snd w" al] by auto
  finally show ?case by auto
qed

lemma update_mem: "(k, v) \<in> set (AList.update k v al)"
  by (induction al) auto

lemma last_write_mem: "ws \<noteq> [] \<Longrightarrow> last ws \<in> set (write_all ws al)"
proof (induction ws arbitrary: al)
  case Nil
  then show ?case by simp
next
  case (Cons w ws)
  then show ?case using update_mem[of "fst w" "snd w" al] by (cases ws) auto
qed


lemma keys_set_write_all: "fst ` set (write_all ws al) = fst ` set al \<union> fst ` set ws"
  by (induction ws arbitrary: al) (auto simp: dom_update)

lemma distinct_write_all: "distinct (map fst al) \<Longrightarrow> distinct (map fst (write_all ws al))"
  by (induction ws arbitrary: al) (auto simp: distinct_update)

lemma write_all_triv:
  "\<forall>w \<in> set ws. map_of al (fst w) = Some (snd w) \<Longrightarrow> write_all ws al = al"
  by (induction ws) (auto simp: update_triv)

lemma write_all_idem:
  assumes "distinct (map fst ws)"
  shows "write_all ws (write_all ws al) = write_all ws al"
proof (rule write_all_triv)
  show "\<forall>w\<in>set ws. map_of (write_all ws al) (fst w) = Some (snd w)"
    using assms map_of_write_all_hit[of ws _ _ al] by (metis prod.collapse)
qed

lemma distinct_feature_columns: "distinct feature_columns"
  by (simp add: feature_columns_def)

lemma keys_lag_writes: "fst ` set (lag_writes f js) = {lag_name c i | c i. c \<in> set feature_columns \<and> i \<in> set js}"
  unfolding lag_writes_def by (auto simp: image_iff) blast+

lemma distinct_lag_writes: "distinct js \<Longrightarrow> distinct (map fst (lag_writes f js))"
proof (induction js)
  case Nil
  then show ?case by (simp add: lag_writes_def)
next
  case (Cons i js)
  let ?row = "map (\<lambda>c. (lag_name c i, shift i (f c))) feature_columns"
  have keys: "map fst ?row = map (\<lambda>c. lag_name c i) feature_columns"
    by simp
  have a: "distinct (map fst ?row)"
    unfolding keys using distinct_feature_columns lag_name_inj by (auto simp: distinct_map inj_on_def)
  have split: "lag_writes f (i # js) = ?row @ lag_writes f js"
    by (simp add: lag_writes_def)
  have disj: "set (map fst ?row) \<inter> set (map fst (lag_writes f js)) = {}"
  proof -
    have "k \<notin> set (map fst (lag_writes f js))" if "k \<in> set (map fst ?row)" for k
    proof
      from that obtain c where k: "k = lag_name c i" by auto
      assume "k \<in> set (map fst (lag_writes f js))"
      then have "k \<in> fst ` set (lag_writes f js)" by simp
      then obtain c' i' where "k = lag_name c' i'" "i' \<in> set js" unfolding keys_lag_writes by blast
      then have "i = i'" using k lag_name_inj by metis
      then show False using \<open>i' \<in> set js\<close> Cons.prems by simp
    qed
    then show ?thesis by blast
  qed
  have "distinct (map fst (lag_writes f js))" using Cons by simp
  then show ?case unfolding split map_append distinct_append using a disj by blast
qed

lemma lag_writes_mem: "c \<in> set feature_columns \<Longrightarrow> i \<in> set js \<Longrightarrow> (lag_name c i, shift i (f c)) \<in> set (lag_writes f js)"
  by (auto simp: lag_writes_def)

section \<open>The lag loops\<close>

lemma has_features_lookup:
  "has_features df \<Longrightarrow> c \<in> set feature_columns \<Longrightarrow> map_of (cols df) c = Some (column_of df c)"
proof -
  assume "has_features df" "c \<in> set feature_columns"
  then have "c \<in> fst ` set (cols df)" by (auto simp: has_features_def list_all_iff columns_def)
  then obtain x where "map_of (cols df) c = Some x" by (metis domD dom_map_of_conv_image_fst)
  then show ?thesis by (simp add: column_of_def)
qed

lemma lag_columns_loop_writes:
  "\<forall>c\<in>set cs. c \<in> set feature_columns \<and> map_of (cols df) c = Some (f c) \<Longrightarrow>
   lag_columns_loop df i cs =
     (df\<lparr>cols := write_all (map (\<lambda>c. (lag_name c i, shift i (f c))) cs) (cols df)\<rparr>, None)"
proof (induction cs arbitrary: df)
  case Nil
  then show ?case by simp
next
  case (Cons col rest)
  let ?df1 = "setitem df (lag_name col i) (shift i (f col))"
  have g: "getitem df col = Inr (f col)" using Cons.prems by (simp add: getitem_def)
  have "\<forall>c\<in>set rest. c \<in> set feature_columns \<and> map_of (cols ?df1) c = Some (f c)"
  proof
    fix c assume c: "c \<in> set rest"
    then have "lag_name col i \<noteq> c" using Cons.prems lag_name_not_tracked by (metis list.set_intros(2))
    then show "c \<in> set feature_columns \<and> map_of (cols ?df1) c = Some (f c)"
      using Cons.prems c by (simp add: setitem_def update_conv')
  qed
  then have "lag_columns_loop ?df1 i rest =
     (?df1\<lparr>cols := write_all (map (\<lambda>c. (lag_name c i, shift i (f c))) rest) (cols ?df1)\<rparr>, None)"
    by (rule Cons.IH)
  then show ?case using g by (simp add: setitem_def)
qed

lemma lag_steps_loop_writes:
  "\<forall>c\<in>set feature_columns. map_of (cols df) c = Some (f c) \<Longrightarrow>
   lag_steps_loop df js = (df\<lparr>cols := write_all (lag_writes f js) (cols df)\<rparr>, None)"
proof (induction js arbitrary: df)
  case Nil
  then show ?case by (simp add: lag_writes_def)
next
  case (Cons i js)
  let ?row = "map (\<lambda>c. (lag_name c i, shift i (f c))) feature_columns"
  let ?df1 = "df\<lparr>cols := write_all ?row (cols df)\<rparr>"
  have inner: "lag_columns_loop df i feature_columns = (?df1, None)"
    using Cons.prems by (intro lag_columns_loop_writes) simp
  have "\<forall>c\<in>set feature_columns. map_of (cols ?df1) c = Some (f c)"
  proof
    fix c assume c: "c \<in> set feature_columns"
    have "c \<notin> fst ` set ?row" using c lag_name_not_tracked by force
    then show "map_of (cols ?df1) c = Some (f c)"
      using Cons.prems c by (simp add: map_of_write_all_other)
  qed
  then have "lag_steps_loop ?df1 js = (?df1\<lparr>cols := write_all (lag_writes f js) (cols ?df1)\<rparr>, None)"
    by (rule Cons.IH)
  moreover have "lag_writes f (i # js) = ?row @ lag_writes f js" by (simp add: lag_writes_def)
  ultimately show ?case using inner by (simp add: write_all_append)
qed

lemma lag_steps_loop_with_lags:
  "has_features df \<Longrightarrow> lag_steps_loop df [1..<n + 1] = (with_lags df n, None)"
  unfolding with_lags_def by (rule lag_steps_loop_writes) (simp add: has_features_lookup)

lemma columns_take_rows [simp]: "columns (take_rows df js) = columns df"
  by (simp add: columns_def take_rows_def comp_def)

lemma columns_dropna [simp]: "columns (dropna df) = columns df"
  by (simp add: dropna_def)

lemma columns_with_lags_set:
  "set (columns (with_lags df n)) =
     set (columns df) \<union> {lag_name c i | c i. c \<in> set feature_columns \<and> i \<in> {1..n}}"
proof -
  have "set [1..<n + 1] = {1..n}" by auto
  then show ?thesis
    by (simp add: columns_def with_lags_def keys_set_write_all keys_lag_writes)
qed

lemma getitem_present: "name \<in> set (columns df) \<Longrightarrow> \<exists>c. getitem df name = Inr c"
proof -
  assume "name \<in> set (columns df)"
  then have "name \<in> fst ` set (cols df)" by (simp add: columns_def)
  then obtain x where "map_of (cols df) name = Some x" by (metis domD dom_map_of_conv_image_fst)
  then show ?thesis by (simp add: getitem_def)
qed

lemma has_features_mem: "has_features df \<Longrightarrow> c \<in> set feature_columns \<Longrightarrow> c \<in> set (columns df)"
  by (simp add: has_features_def list_all_iff)

lemma prepare_data_ok:
  assumes "has_features df" "target \<in> set feature_columns"
  shows "\<exists>y. prepare_data df target n =
            (with_lags df n, Inr (select_lag_columns (dropna (with_lags df n)), y))"
proof -
  have "target \<in> set (columns (dropna (with_lags df n)))"
    using assms by (simp add: columns_with_lags_set has_features_mem)
  then obtain y where "getitem (dropna (with_lags df n)) target = Inr y"
    using getitem_present by blast
  moreover have "lag_steps_loop df [1..<n + 1] = (with_lags df n, None)"
    using assms(1) by (rule lag_steps_loop_with_lags)
  ultimately show ?thesis unfolding prepare_data_def by (simp del: upt_Suc)
qed

section \<open>The rows that dropna keeps\<close>

lemma length_shift [simp]: "length (shift i c) = length c"
  by (simp add: shift_def)

lemma shift_nth: "j < length c \<Longrightarrow> shift i c ! j = (if j < i then NaN else c ! (j - i))"
  by (simp add: shift_def nth_append)

lemma nrows_with_lags [simp]: "nrows (with_lags df n) = nrows df"
  by (simp add: with_lags_def)

lemma wf_column_length:
  "wf_frame df \<Longrightarrow> has_features df \<Longrightarrow> c \<in> set feature_columns \<Longrightarrow> length (column_of df c) = nrows df"
proof -
  assume wf: "wf_frame df" and hf: "has_features df" and c: "c \<in> set feature_columns"
  then have "map_of (cols df) c = Some (column_of df c)" by (simp add: has_features_lookup)
  then have "(c, column_of df c) \<in> set (cols df)" by (rule map_of_SomeD)
  then show ?thesis using wf by (auto simp: wf_frame_def list_all_iff)
qed

lemma last_lag_writes:
  "0 < n \<Longrightarrow> last (lag_writes f [1..<n + 1]) = (lag_name ''pressure'' n, shift n (f ''pressure''))"
proof -
  assume "0 < n"
  then have "[1..<n + 1] = [1..<n] @ [n]" by simp
  then have "lag_writes f [1..<n + 1] = lag_writes f [1..<n] @ map (\<lambda>c. (lag_name c n, shift n (f c))) feature_columns"
    by (simp add: lag_writes_def)
  then show ?thesis by (simp add: feature_columns_def)
qed

lemma lag_writes_nonempty: "0 < n \<Longrightarrow> lag_writes f [1..<n + 1] \<noteq> []"
proof -
  assume "0 < n"
  then have "[1..<n + 1] = [1..<n] @ [n]" by simp
  then have "lag_writes f [1..<n + 1] = lag_writes f [1..<n] @ map (\<lambda>c. (lag_name c n, shift n (f c))) feature_columns"
    by (simp add: lag_writes_def)
  then show ?thesis by (simp add: feature_columns_def)
qed

lemma early_rows_have_nan:
  assumes "wf_frame df" "has_features df" "j < n" "j < nrows df"
  shows "row_has_nan (with_lags df n) j"
proof -
  let ?w = "(lag_name ''pressure'' n, shift n (column_of df ''pressure''))"
  have n: "0 < n" using assms(3) by simp
  have "last (lag_writes (column_of df) [1..<n + 1])
           \<in> set (write_all (lag_writes (column_of df) [1..<n + 1]) (cols df))"
    by (rule last_write_mem[OF lag_writes_nonempty[OF n]])
  then have "?w \<in> set (cols (with_lags df n))"
    unfolding with_lags_def last_lag_writes[OF n] by simp
  moreover have "length (column_of df ''pressure'') = nrows df"
    using assms(1,2) by (rule wf_column_length) (simp add: feature_columns_def)
  then have "snd ?w ! j = NaN" using assms(3,4) by (simp add: shift_nth)
  ultimately show ?thesis unfolding row_has_nan_def list_ex_iff by blast
qed

lemma late_rows_have_no_nan:
  assumes "wf_frame df" "has_features df" "no_missing df" "n \<le> j" "j < nrows df"
  shows "\<not> row_has_nan (with_lags df n) j"
proof -
  have "snd p ! j \<noteq> NaN" if p: "p \<in> set (cols (with_lags df n))" for p
  proof -
    from p have "p \<in> set (lag_writes (column_of df) [1..<n + 1]) \<union> set (cols df)"
      using set_write_all_subset[of "lag_writes (column_of df) [1..<n + 1]" "cols df"]
      by (auto simp: with_lags_def simp del: upt_Suc)
    then show ?thesis
    proof
      assume "p \<in> set (lag_writes (column_of df) [1..<n + 1])"
      then obtain c i where c: "c \<in> set feature_columns" and i: "1 \<le> i" "i \<le> n"
        and pe: "p = (lag_name c i, shift i (column_of df c))"
        by (auto simp: lag_writes_def simp del: upt_Suc)
      have len: "length (column_of df c) = nrows df" using assms(1,2) c by (rule wf_column_length)
      have "map_of (cols df) c = Some (column_of df c)" using assms(2) c by (simp add: has_features_lookup)
      then have "(c, column_of df c) \<in> set (cols df)" by (rule map_of_SomeD)
      then have "NaN \<notin> set (column_of df c)" using assms(3) by (auto simp: no_missing_def list_all_iff)
      moreover have "j - i < length (column_of df c)" using len assms(5) by simp
      ultimately have "column_of df c ! (j - i) \<noteq> NaN" by (metis nth_mem)
      then show ?thesis using pe len assms(4,5) i by (simp add: shift_nth)
    next
      assume q: "p \<in> set (cols df)"
      then have "length (snd p) = nrows df" using assms(1) by (auto simp: wf_frame_def list_all_iff)
      moreover have "NaN \<notin> set (snd p)" using q assms(3) by (auto simp: no_missing_def list_all_iff)
      ultimately show ?thesis using assms(5) by (metis nth_mem)
    qed
  qed
  then show ?thesis unfolding row_has_nan_def list_ex_iff by blast
qed

lemma filter_upt_split:
  assumes "\<And>j. j < k \<Longrightarrow> \<not> P j" "\<And>j. k \<le> j \<Longrightarrow> j < m \<Longrightarrow> P j" "k \<le> m"
  shows "filter P [0..<m] = [k..<m]"
proof -
  have "[0..<k + (m - k)] = [0..<k] @ [k..<k + (m - k)]" by (rule upt_add_eq_append) simp
  then have "[0..<m] = [0..<k] @ [k..<m]" using assms(3) by simp
  moreover have "filter P [0..<k] = []" using assms(1) by (simp add: filter_empty_conv)
  moreover have "filter P [k..<m] = [k..<m]" using assms(2) by (simp add: filter_id_conv)
  ultimately show ?thesis by simp
qed

lemma dropna_short:
  assumes "wf_frame df" "has_features df" "nrows df \<le> n"
  shows "dropna (with_lags df n) = take_rows (with_lags df n) []"
proof -
  have "filter (\<lambda>j. \<not> row_has_nan (with_lags df n) j) [0..<nrows df] = []"
    using assms early_rows_have_nan by (auto simp: filter_empty_conv)
  then show ?thesis by (simp add: dropna_def)
qed

lemma dropna_long:
  assumes "wf_frame df" "has_features df" "no_missing df" "n \<le> nrows df"
  shows "dropna (with_lags df n) = take_rows (with_lags df n) [n..<nrows df]"
proof -
  have "filter (\<lambda>j. \<not> row_has_nan (with_lags df n) j) [0..<nrows df] = [n..<nrows df]"
    using assms early_rows_have_nan late_rows_have_no_nan
    by (intro filter_upt_split) auto
  then show ?thesis by (simp add: dropna_def)
qed

lemma nrows_select [simp]: "nrows (select_lag_columns df) = nrows df"
  by (simp add: select_lag_columns_def)

lemma nrows_take_rows [simp]: "nrows (take_rows df js) = length js"
  by (simp add: take_rows_def)

section \<open>Short histories\<close>

text \<open>
  Claim C2. A table that holds the five tracked columns and has fewer than k + 1 = 8 rows
  gives, for every tracked attribute, a feature set with zero rows: \<open>prepare_data\<close>
  returns normally and \<open>X\<close> is empty, whatever the cells hold.
\<close>

theorem prepare_data_short_history:
  assumes "wf_frame df" "has_features df" "nrows df < 7 + 1" "target \<in> set feature_columns"
  shows "\<exists>df' X y. prepare_data df target 7 = (df', Inr (X, y)) \<and> nrows X = 0"
proof -
  obtain y where p: "prepare_data df target 7 =
      (with_lags df 7, Inr (select_lag_columns (dropna (with_lags df 7)), y))"
    using prepare_data_ok[OF assms(2) assms(4)] by blast
  have "nrows df \<le> 7" using assms(3) by simp
  then have "dropna (with_lags df 7) = take_rows (with_lags df 7) []"
    using assms(1,2) by (intro dropna_short)
  then have "nrows (select_lag_columns (dropna (with_lags df 7))) = 0" by simp
  then show ?thesis using p by blast
qed

theorem prepare_data_short_history_witness:
  "wf_frame three_days \<and> has_features three_days \<and> nrows three_days < 7 + 1
   \<and> ''temperature'' \<in> set feature_columns
   \<and> (\<exists>df' X y. prepare_data three_days ''temperature'' 7 = (df', Inr (X, y)) \<and> nrows X = 0)"
proof -
  have a: "wf_frame three_days" by (simp add: wf_frame_def columns_def three_days_def)
  have b: "has_features three_days"
    by (simp add: has_features_def columns_def three_days_def feature_columns_def)
  have c: "nrows three_days < 7 + 1" by (simp add: three_days_def)
  have d: "''temperature'' \<in> set feature_columns" by (simp add: feature_columns_def)
  show ?thesis using a b c d prepare_data_short_history[OF a b c d] by simp
qed

section \<open>The effect of prepare\_data\<close>

lemma prepare_data_eq:
  assumes "has_features df"
  shows "prepare_data df target n =
     (with_lags df n,
      case getitem (dropna (with_lags df n)) target of
        Inl e \<Rightarrow> Inl e
      | Inr y \<Rightarrow> Inr (select_lag_columns (dropna (with_lags df n)), y))"
proof -
  have "lag_steps_loop df [1..<n + 1] = (with_lags df n, None)"
    using assms by (rule lag_steps_loop_with_lags)
  then show ?thesis unfolding prepare_data_def by (simp del: upt_Suc split: sum.splits)
qed

lemma tracked_not_written:
  "c \<in> set feature_columns \<Longrightarrow> c \<notin> fst ` set (lag_writes f js)"
  unfolding keys_lag_writes using lag_name_not_tracked by auto

lemma map_of_with_lags_tracked:
  "c \<in> set feature_columns \<Longrightarrow> map_of (cols (with_lags df n)) c = map_of (cols df) c"
  by (simp add: with_lags_def map_of_write_all_other tracked_not_written)

lemma map_of_with_lags_lag:
  assumes "c \<in> set feature_columns" "1 \<le> i" "i \<le> n"
  shows "map_of (cols (with_lags df n)) (lag_name c i) = Some (shift i (column_of df c))"
proof -
  have "i \<in> set [1..<n + 1]" using assms(2,3) by auto
  then have "(lag_name c i, shift i (column_of df c)) \<in> set (lag_writes (column_of df) [1..<n + 1])"
    using assms(1) by (intro lag_writes_mem)
  moreover have "distinct (map fst (lag_writes (column_of df) [1..<n + 1]))"
    by (rule distinct_lag_writes) simp
  ultimately have "map_of (write_all (lag_writes (column_of df) [1..<n + 1]) (cols df)) (lag_name c i)
      = Some (shift i (column_of df c))"
    by (intro map_of_write_all_hit)
  then show ?thesis by (simp add: with_lags_def del: upt_Suc)
qed

lemma column_of_with_lags:
  "c \<in> set feature_columns \<Longrightarrow> column_of (with_lags df n) c = column_of df c"
  by (simp add: column_of_def map_of_with_lags_tracked)

lemma has_features_with_lags: "has_features df \<Longrightarrow> has_features (with_lags df n)"
  by (auto simp: has_features_def list_all_iff columns_with_lags_set)

lemma lag_writes_cong:
  "(\<And>c. c \<in> set feature_columns \<Longrightarrow> f c = g c) \<Longrightarrow> lag_writes f js = lag_writes g js"
proof -
  assume eq: "\<And>c. c \<in> set feature_columns \<Longrightarrow> f c = g c"
  have "map (\<lambda>c. (lag_name c i, shift i (f c))) feature_columns
      = map (\<lambda>c. (lag_name c i, shift i (g c))) feature_columns" for i
    by (rule map_cong) (simp_all add: eq)
  then show ?thesis unfolding lag_writes_def by presburger
qed

lemma with_lags_idem: "with_lags (with_lags df n) n = with_lags df n"
proof -
  let ?ws = "lag_writes (column_of df) [1..<n + 1]"
  have "lag_writes (column_of (with_lags df n)) [1..<n + 1] = ?ws"
    by (rule lag_writes_cong) (rule column_of_with_lags)
  moreover have "write_all ?ws (write_all ?ws (cols df)) = write_all ?ws (cols df)"
    by (rule write_all_idem) (rule distinct_lag_writes, simp)
  ultimately show ?thesis
    unfolding with_lags_def[of "with_lags df n"] by (simp add: with_lags_def del: upt_Suc)
qed

lemma wf_frame_with_lags:
  assumes "wf_frame df" "has_features df"
  shows "wf_frame (with_lags df n)"
proof -
  have "distinct (columns (with_lags df n))"
    using assms(1) by (simp add: wf_frame_def columns_def with_lags_def distinct_write_all)
  moreover have "length (snd p) = nrows df" if p: "p \<in> set (cols (with_lags df n))" for p
  proof -
    from p have "p \<in> set (lag_writes (column_of df) [1..<n + 1]) \<union> set (cols df)"
      using set_write_all_subset[of "lag_writes (column_of df) [1..<n + 1]" "cols df"]
      by (auto simp: with_lags_def simp del: upt_Suc)
    then show ?thesis
    proof
      assume "p \<in> set (lag_writes (column_of df) [1..<n + 1])"
      then obtain c i where "c \<in> set feature_columns" "p = (lag_name c i, shift i (column_of df c))"
        by (auto simp: lag_writes_def simp del: upt_Suc)
      then show ?thesis using assms wf_column_length by simp
    next
      assume "p \<in> set (cols df)"
      then show ?thesis using assms(1) by (auto simp: wf_frame_def list_all_iff)
    qed
  qed
  ultimately show ?thesis by (simp add: wf_frame_def list_all_iff)
qed

lemma prepare_data_again:
  assumes "has_features df"
  shows "prepare_data (with_lags df n) target n = prepare_data df target n"
proof -
  have "prepare_data (with_lags df n) target n =
     (with_lags (with_lags df n) n,
      case getitem (dropna (with_lags (with_lags df n) n)) target of
        Inl e \<Rightarrow> Inl e
      | Inr y \<Rightarrow> Inr (select_lag_columns (dropna (with_lags (with_lags df n) n)), y))"
    using assms by (intro prepare_data_eq has_features_with_lags)
  then show ?thesis unfolding with_lags_idem using assms by (simp only: prepare_data_eq)
qed

lemma map_of_select:
  "map_of (cols (select_lag_columns d)) k = (if is_lag_column k then map_of (cols d) k else None)"
proof -
  have f: "map_of (filter (\<lambda>p. is_lag_column (fst p)) al) k = (if is_lag_column k then map_of al k else None)"
    for al :: "(string \<times> column) list"
    by (induction al) auto
  show ?thesis by (simp add: select_lag_columns_def f)
qed

lemma map_of_take_rows:
  "map_of (cols (take_rows df js)) k = map_option (\<lambda>c. map (\<lambda>j. c ! j) js) (map_of (cols df) k)"
proof -
  have f: "map_of (map (\<lambda>p. (fst p, map (\<lambda>j. snd p ! j) js)) al) k
      = map_option (\<lambda>c. map (\<lambda>j. c ! j) js) (map_of al k)"
    for al :: "(string \<times> column) list"
    by (induction al) auto
  show ?thesis by (simp add: take_rows_def f)
qed

lemma endswith_append: "endswith (a @ t) t"
  by (simp add: endswith_def)

lemma str_nat_digit: "i < 10 \<Longrightarrow> str_nat i = [digit_char i]"
  by (subst str_nat.simps) simp

lemma str_nat_small:
  "str_nat 1 = ''1''" "str_nat 2 = ''2''" "str_nat 3 = ''3''" "str_nat 4 = ''4''"
  "str_nat 5 = ''5''" "str_nat 6 = ''6''" "str_nat 7 = ''7''"
  by code_simp+

lemma lag_name_small:
  "lag_name c 1 = c @ ''_lag_1''" "lag_name c 2 = c @ ''_lag_2''" "lag_name c 3 = c @ ''_lag_3''"
  "lag_name c 4 = c @ ''_lag_4''" "lag_name c 5 = c @ ''_lag_5''" "lag_name c 6 = c @ ''_lag_6''"
  "lag_name c 7 = c @ ''_lag_7''"
  unfolding lag_name_def str_nat_small by simp_all

lemma is_lag_column_lag_name:
  assumes "1 \<le> i" "i \<le> 7"
  shows "is_lag_column (lag_name c i)"
proof -
  have "i = 1 \<or> i = 2 \<or> i = 3 \<or> i = 4 \<or> i = 5 \<or> i = 6 \<or> i = 7" using assms by arith
  moreover have "is_lag_column (c @ ''_lag_1'')" "is_lag_column (c @ ''_lag_2'')"
    "is_lag_column (c @ ''_lag_3'')" "is_lag_column (c @ ''_lag_4'')"
    "is_lag_column (c @ ''_lag_5'')" "is_lag_column (c @ ''_lag_6'')"
    "is_lag_column (c @ ''_lag_7'')"
    by (simp_all add: is_lag_column_def lag_suffixes_def endswith_def)
  ultimately show ?thesis using lag_name_small[of c] by metis
qed

lemma getitem_take_rows_tracked:
  assumes "has_features df" "c \<in> set feature_columns"
  shows "getitem (take_rows (with_lags df n) js) c = Inr (map (\<lambda>j. column_of df c ! j) js)"
  using assms
  by (simp add: getitem_def map_of_take_rows map_of_with_lags_tracked has_features_lookup)

lemma getitem_features_lag:
  assumes "wf_frame df" "has_features df" "c \<in> set feature_columns" "1 \<le> i" "i \<le> 7"
    and "7 \<le> nrows df"
  shows "getitem (select_lag_columns (take_rows (with_lags df 7) [7..<nrows df])) (lag_name c i)
       = Inr (map (\<lambda>j. column_of df c ! (j - i)) [7..<nrows df])"
proof -
  have len: "length (column_of df c) = nrows df" using assms(1-3) by (rule wf_column_length)
  have "map (\<lambda>j. shift i (column_of df c) ! j) [7..<nrows df]
      = map (\<lambda>j. column_of df c ! (j - i)) [7..<nrows df]"
    using len assms(5) by (intro map_cong) (simp_all add: shift_nth)
  then show ?thesis
    using assms(3-5)
    by (simp add: getitem_def map_of_select is_lag_column_lag_name map_of_take_rows
        map_of_with_lags_lag)
qed

section \<open>Feature rows\<close>

text \<open>
  Claim C1, as amended. For a well-formed table that holds the five tracked columns, has at
  least k + 1 = 8 rows and no missing cell in any column (tracked or not), \<open>prepare_data\<close>
  returns for each tracked attribute exactly (rows - 7) feature rows. The feature column
  \<open>c_lag_i\<close> holds, for every tracked \<open>c\<close> and every \<open>i\<close> from 1 to 7, the value of
  \<open>c\<close> from \<open>i\<close> rows earlier, and \<open>y\<close> is the target column without its first seven rows.
\<close>

theorem prepare_data_feature_rows:
  assumes "wf_frame df" "has_features df" "no_missing df" "7 + 1 \<le> nrows df"
    and "target \<in> set feature_columns"
  shows "\<exists>df' X y. prepare_data df target 7 = (df', Inr (X, y))
           \<and> nrows X = nrows df - 7
           \<and> (\<forall>c\<in>set feature_columns. \<forall>i\<in>{1..7}.
                 getitem X (lag_name c i) = Inr (map (\<lambda>j. column_of df c ! (j - i)) [7..<nrows df]))
           \<and> y = map (\<lambda>j. column_of df target ! j) [7..<nrows df]"
proof -
  let ?d = "take_rows (with_lags df 7) [7..<nrows df]"
  have m: "7 \<le> nrows df" using assms(4) by simp
  have d: "dropna (with_lags df 7) = ?d" using assms(1-3) m by (rule dropna_long)
  have y: "getitem ?d target = Inr (map (\<lambda>j. column_of df target ! j) [7..<nrows df])"
    using assms(2,5) by (rule getitem_take_rows_tracked)
  have p: "prepare_data df target 7 =
      (with_lags df 7, Inr (select_lag_columns ?d, map (\<lambda>j. column_of df target ! j) [7..<nrows df]))"
    using assms(2) by (simp add: prepare_data_eq d y)
  have "\<forall>c\<in>set feature_columns. \<forall>i\<in>{1..7}.
      getitem (select_lag_columns ?d) (lag_name c i)
        = Inr (map (\<lambda>j. column_of df c ! (j - i)) [7..<nrows df])"
    using assms(1,2) m by (auto intro: getitem_features_lag)
  moreover have "nrows (select_lag_columns ?d) = nrows df - 7" by simp
  ultimately show ?thesis using p by blast
qed

theorem prepare_data_feature_rows_witness:
  "wf_frame eight_days \<and> has_features eight_days \<and> no_missing eight_days
   \<and> 7 + 1 \<le> nrows eight_days \<and> ''humidity'' \<in> set feature_columns
   \<and> (\<exists>df' X y. prepare_data eight_days ''humidity'' 7 = (df', Inr (X, y))
           \<and> nrows X = nrows eight_days - 7
           \<and> (\<forall>c\<in>set feature_columns. \<forall>i\<in>{1..7}.
                 getitem X (lag_name c i)
                   = Inr (map (\<lambda>j. column_of eight_days c ! (j - i)) [7..<nrows eight_days]))
           \<and> y = map (\<lambda>j. column_of eight_days ''humidity'' ! j) [7..<nrows eight_days])"
proof -
  have a: "wf_frame eight_days" by (simp add: wf_frame_def columns_def eight_days_def)
  have b: "has_features eight_days"
    by (simp add: has_features_def columns_def eight_days_def feature_columns_def)
  have c: "no_missing eight_days" by (simp add: no_missing_def eight_days_def)
  have d: "7 + 1 \<le> nrows eight_days" by (simp add: eight_days_def)
  have e: "''humidity'' \<in> set feature_columns" by (simp add: feature_columns_def)
  show ?thesis using a b c d e prepare_data_feature_rows[OF a b c d e] by blast
qed

text \<open>
  The claim as stated asks only for the tracked columns to be complete. \<open>dropna\<close> looks at
  every column: with eight rows, complete tracked columns and the city missing in one row,
  no feature row is left, where the claim promises one.
\<close>

theorem prepare_data_missing_elsewhere_counterexample:
  "wf_frame eight_days_city_gap \<and> has_features eight_days_city_gap
   \<and> 7 + 1 \<le> nrows eight_days_city_gap
   \<and> list_all (\<lambda>c. NaN \<notin> set (column_of eight_days_city_gap c)) feature_columns
   \<and> nrows eight_days_city_gap - 7 = 1
   \<and> map_sum id (nrows \<circ> fst) (snd (prepare_data eight_days_city_gap ''temperature'' 7)) = Inr 0"
  by code_simp

section \<open>Training\<close>

lemma train_test_split_empty:
  "nrows X < 2 \<Longrightarrow>
   train_test_split lib X y = Inl (ValueError (empty_train_set_message (nrows X)))"
proof -
  assume "nrows X < 2"
  then have "nrows X - (nrows X + 4) div 5 = 0" by arith
  then show ?thesis by (simp add: train_test_split_def Let_def)
qed

lemma fit_target_empty:
  "nrows X < 2 \<Longrightarrow> fit_target lib X y = Inl (ValueError (empty_train_set_message (nrows X)))"
  by (simp add: fit_target_def train_test_split_empty)

lemma getitem_dropna_tracked:
  assumes "has_features df" "c \<in> set feature_columns"
  shows "\<exists>y. getitem (dropna (with_lags df n)) c = Inr y"
proof -
  have "c \<in> set (columns (dropna (with_lags df n)))"
    using assms by (simp add: columns_with_lags_set has_features_mem)
  then show ?thesis by (rule getitem_present)
qed

lemma prepare_data_tracked:
  assumes "has_features df" "c \<in> set feature_columns"
  shows "\<exists>y. prepare_data df c 7 = (with_lags df 7, Inr (features_of df, y))"
proof -
  obtain y where "getitem (dropna (with_lags df 7)) c = Inr y"
    using getitem_dropna_tracked[OF assms] by blast
  then show ?thesis using assms(1) by (simp add: prepare_data_eq features_of_def)
qed

lemma features_of_with_lags: "features_of (with_lags df 7) = features_of df"
  by (simp add: features_of_def with_lags_idem)

lemma nrows_features_short:
  assumes "wf_frame df" "has_features df" "nrows df \<le> 7"
  shows "nrows (features_of df) = 0"
  using assms by (simp add: features_of_def dropna_short)

lemma nrows_features_long:
  assumes "wf_frame df" "has_features df" "no_missing df" "7 \<le> nrows df"
  shows "nrows (features_of df) = nrows df - 7"
  using assms by (simp add: features_of_def dropna_long)

lemma empty_train_set_message_0:
  "empty_train_set_message 0 =
     ''With n_samples=0, test_size=0.2 and train_size=None, the resulting train set will be empty. Adjust any of the aforementioned parameters.''"
proof -
  have "str_nat 0 = ''0''" by code_simp
  then show ?thesis by (simp add: empty_train_set_message_def)
qed

lemma train_short:
  assumes "wf_frame df" "has_features df" "nrows df < 7 + 1"
  shows "train lib self df =
     (with_lags df 7, self, Some (ValueError (empty_train_set_message 0)))"
proof -
  obtain y where p: "prepare_data df ''temperature'' 7 = (with_lags df 7, Inr (features_of df, y))"
    using prepare_data_tracked[OF assms(2), of "''temperature''"] by (auto simp: feature_columns_def)
  have z: "nrows (features_of df) = 0" using assms by (intro nrows_features_short) simp_all
  then have "fit_target lib (features_of df) y
      = Inl (ValueError (empty_train_set_message (nrows (features_of df))))"
    by (intro fit_target_empty) simp
  then show ?thesis using p z by (simp add: train_def feature_columns_def)
qed

lemma train_short_three_days:
  "train lib self three_days =
     (with_lags three_days 7, self, Some (ValueError (empty_train_set_message 0)))"
proof (rule train_short)
  show "wf_frame three_days" by (simp add: wf_frame_def columns_def three_days_def)
  show "has_features three_days"
    by (simp add: has_features_def columns_def three_days_def feature_columns_def)
  show "nrows three_days < 7 + 1" by (simp add: three_days_def)
qed

section \<open>Prediction\<close>

lemma lag_columns_loop_missing:
  assumes "set cs \<subseteq> set feature_columns" "\<exists>c\<in>set cs. map_of (cols df) c = None"
  shows "\<exists>d e. lag_columns_loop df i cs = (d, Some e)"
  using assms
proof (induction cs arbitrary: df)
  case Nil
  then show ?case by simp
next
  case (Cons col rest)
  show ?case
  proof (cases "map_of (cols df) col")
    case None
    then show ?thesis by (simp add: getitem_def)
  next
    case (Some x)
    let ?df1 = "setitem df (lag_name col i) (shift i x)"
    from Cons.prems(2) Some obtain c where c: "c \<in> set rest" "map_of (cols df) c = None" by auto
    then have "c \<in> set feature_columns" using Cons.prems(1) by auto
    then have "lag_name col i \<noteq> c" using lag_name_not_tracked by metis
    then have "map_of (cols ?df1) c = None" using c(2) by (simp add: setitem_def update_conv')
    then have "\<exists>d e. lag_columns_loop ?df1 i rest = (d, Some e)"
      using Cons.IH[of ?df1] Cons.prems(1) c(1) by auto
    then show ?thesis using Some by (simp add: getitem_def)
  qed
qed

lemma prepare_data_missing:
  assumes "\<not> has_features df"
  shows "\<exists>d e. prepare_data df target 7 = (d, Inl e)"
proof -
  from assms obtain c where "c \<in> set feature_columns" "c \<notin> set (columns df)"
    by (auto simp: has_features_def list_all_iff)
  then have "\<exists>c\<in>set feature_columns. map_of (cols df) c = None"
    by (auto simp: columns_def map_of_eq_None_iff)
  then obtain d e where l: "lag_columns_loop df 1 feature_columns = (d, Some e)"
    using lag_columns_loop_missing[of feature_columns df 1] by auto
  have "[1..<7 + 1] = 1 # [2..<8]" by (simp add: upt_conv_Cons)
  then have "lag_steps_loop df [1..<7 + 1] = (d, Some e)" using l by simp
  then show ?thesis unfolding prepare_data_def by simp
qed

lemma predict_loop_empty:
  assumes "has_features df" "nrows (features_of df) = 0" "set ts \<subseteq> set feature_columns"
  shows "predict_loop lib self df preds ts = (if ts = [] then df else with_lags df 7, Inr preds)"
  using assms
proof (induction ts arbitrary: df)
  case Nil
  then show ?case by simp
next
  case (Cons t rest)
  obtain y where p: "prepare_data df t 7 = (with_lags df 7, Inr (features_of df, y))"
    using prepare_data_tracked[of df t] Cons.prems by auto
  have "predict_loop lib self (with_lags df 7) preds rest
      = (if rest = [] then with_lags df 7 else with_lags (with_lags df 7) 7, Inr preds)"
    using Cons.prems by (intro Cons.IH) (simp_all add: has_features_with_lags features_of_with_lags)
  then show ?case using p Cons.prems(2) by (simp add: with_lags_idem)
qed

lemma predict_loop_nonempty:
  assumes "has_features df" "0 < nrows (features_of df)" "set ts \<subseteq> set feature_columns"
    and "predict_loop lib self df preds ts = (d, Inr m)"
  shows "(\<forall>t\<in>set ts. \<exists>v. predict_target lib self (features_of df) t = Inr v \<and> m t = Some v)
       \<and> (\<forall>t. t \<notin> set ts \<longrightarrow> m t = preds t)"
  using assms
proof (induction ts arbitrary: df preds)
  case Nil
  then show ?case by simp
next
  case (Cons t rest)
  obtain y where p: "prepare_data df t 7 = (with_lags df 7, Inr (features_of df, y))"
    using prepare_data_tracked[of df t] Cons.prems by auto
  show ?case
  proof (cases "predict_target lib self (features_of df) t")
    case (Inl e)
    then show ?thesis using Cons.prems(2,4) p by simp
  next
    case (Inr v)
    then have run: "predict_loop lib self (with_lags df 7) (preds(t \<mapsto> v)) rest = (d, Inr m)"
      using Cons.prems(2,4) p by simp
    have hf: "has_features (with_lags df 7)" using Cons.prems(1) by (rule has_features_with_lags)
    have nz: "0 < nrows (features_of (with_lags df 7))"
      using Cons.prems(2) by (simp add: features_of_with_lags)
    have sub: "set rest \<subseteq> set feature_columns" using Cons.prems(3) by simp
    have ih: "(\<forall>u\<in>set rest. \<exists>w. predict_target lib self (features_of (with_lags df 7)) u = Inr w \<and> m u = Some w)
       \<and> (\<forall>u. u \<notin> set rest \<longrightarrow> m u = (preds(t \<mapsto> v)) u)"
      by (rule Cons.IH[OF hf nz sub run])
    show ?thesis
    proof (intro conjI ballI allI impI)
      fix u assume "u \<in> set (t # rest)"
      then show "\<exists>w. predict_target lib self (features_of df) u = Inr w \<and> m u = Some w"
        using ih Inr by (cases "u \<in> set rest") (auto simp: features_of_with_lags)
    next
      fix u assume "u \<notin> set (t # rest)"
      then show "m u = preds u" using ih by auto
    qed
  qed
qed

lemma predict_loop_raises:
  assumes "has_features df" "0 < nrows (features_of df)" "t \<in> set feature_columns"
    and "predict_target lib self (features_of df) t = Inl e"
  shows "predict_loop lib self df preds (t # rest) = (with_lags df 7, Inl e)"
proof -
  obtain y where p: "prepare_data df t 7 = (with_lags df 7, Inr (features_of df, y))"
    using prepare_data_tracked[of df t] assms by auto
  then show ?thesis using assms(2,4) by simp
qed

lemma predict_loop_succeeds:
  assumes "has_features df" "0 < nrows (features_of df)" "set ts \<subseteq> set feature_columns"
    and "\<forall>t\<in>set ts. predict_target lib self (features_of df) t = Inr (g t)"
  shows "\<exists>m. predict_loop lib self df preds ts = (if ts = [] then df else with_lags df 7, Inr m)"
  using assms
proof (induction ts arbitrary: df preds)
  case Nil
  then show ?case by simp
next
  case (Cons t rest)
  obtain y where p: "prepare_data df t 7 = (with_lags df 7, Inr (features_of df, y))"
    using prepare_data_tracked[of df t] Cons.prems by auto
  have "\<exists>m. predict_loop lib self (with_lags df 7) (preds(t \<mapsto> g t)) rest
      = (if rest = [] then with_lags df 7 else with_lags (with_lags df 7) 7, Inr m)"
    using Cons.prems by (intro Cons.IH) (simp_all add: has_features_with_lags features_of_with_lags)
  then show ?case using p Cons.prems(2,4) by (auto simp: with_lags_idem)
qed



section \<open>The caller's frame\<close>

lemma prepare_data_target:
  assumes "has_features df" "c \<in> set feature_columns"
  shows "prepare_data df c 7 = (with_lags df 7, Inr (features_of df, target_of df c))"
proof -
  obtain y where "getitem (dropna (with_lags df 7)) c = Inr y"
    using getitem_dropna_tracked[OF assms] by blast
  then show ?thesis using assms(1) by (simp add: prepare_data_eq features_of_def target_of_def)
qed

lemma target_of_with_lags: "target_of (with_lags df 7) c = target_of df c"
  by (simp add: target_of_def with_lags_idem)

lemma train_loop_frame:
  assumes "has_features df" "set ts \<subseteq> set feature_columns"
  shows "fst (train_loop lib self df ts) = (if ts = [] then df else with_lags df 7)"
  using assms
proof (induction ts arbitrary: df self)
  case Nil
  then show ?case by simp
next
  case (Cons t rest)
  have p: "prepare_data df t 7 = (with_lags df 7, Inr (features_of df, target_of df t))"
    using Cons.prems by (intro prepare_data_target) simp_all
  have hf: "has_features (with_lags df 7)" using Cons.prems(1) by (rule has_features_with_lags)
  have sub: "set rest \<subseteq> set feature_columns" using Cons.prems(2) by simp
  have ih: "fst (train_loop lib b (with_lags df 7) rest) = with_lags df 7" for b
    using Cons.IH[OF hf sub, of b] by (simp add: with_lags_idem)
  show ?case using p ih by (simp split: sum.splits prod.splits)
qed

lemma train_frame:
  assumes "has_features df"
  shows "fst (train lib self df) = with_lags df 7"
  using train_loop_frame[OF assms, of feature_columns lib self]
  by (simp add: train_def feature_columns_def)

lemma prepare_data_frame:
  assumes "has_features df"
  shows "fst (prepare_data df target n) = with_lags df n"
  using assms by (simp add: prepare_data_eq)







lemma three_days_ok:
  "wf_frame three_days" "has_features three_days" "nrows three_days < 7 + 1"
  by (simp_all add: wf_frame_def has_features_def columns_def three_days_def feature_columns_def)

lemma eight_days_ok:
  "wf_frame eight_days" "has_features eight_days" "no_missing eight_days" "7 + 1 \<le> nrows eight_days"
  by (simp_all add: wf_frame_def has_features_def no_missing_def columns_def eight_days_def
      feature_columns_def)

section \<open>Training on a short history\<close>

text \<open>
  Claim C3. The claim says that \<open>train\<close> completes without an exception on a table with
  fewer than eight rows. On the three-day table the code does not: the feature set of the
  first attribute is empty, \<open>train_test_split\<close> raises ValueError for its 0 samples, \<open>train\<close>
  has no test for
  the empty set (as \<open>predict_next_day\<close> has), and the object is left as it was, with no
  scaler and no forest stored.
\<close>

theorem train_short_history_raises:
  "train lib self three_days =
     (fst (prepare_data three_days ''temperature'' 7), self,
      Some (ValueError
        ''With n_samples=0, test_size=0.2 and train_size=None, the resulting train set will be empty. Adjust any of the aforementioned parameters.''))"
  using train_short[OF three_days_ok(1,2,3), of lib self]
  by (simp add: prepare_data_frame three_days_ok(2) empty_train_set_message_0)


section \<open>Predicting before initialising\<close>

text \<open>
  Claim C8. While the global \<open>model\<close> is \<open>None\<close>, as it is from the start of the process
  until \<open>/api/initialize\<close> is first called, \<open>/api/predict\<close> answers with status 400 and the
  message that the model is not initialised; the answer carries no predictions.
\<close>

theorem predict_before_initialize:
  "model st = None \<Longrightarrow>
   predict lib st =
     Response 400 (StatusMessage ''error'' ''Model not initialized. Please call /api/initialize first'')"
  by (simp add: predict_def)

theorem predict_before_initialize_witness:
  "model (initial_app (Inr eight_days) :: (unit, real) app) = None
   \<and> predict stub_sklearn (initial_app (Inr eight_days)) =
       Response 400 (StatusMessage ''error'' ''Model not initialized. Please call /api/initialize first'')"
proof -
  have a: "model (initial_app (Inr eight_days) :: (unit, real) app) = None"
    by (simp add: initial_app_def)
  show ?thesis using a predict_before_initialize[OF a, of stub_sklearn] by simp
qed

section \<open>The predicted mapping\<close>

lemma predict_next_day_missing:
  assumes "\<not> has_features df"
  shows "\<exists>d e. predict_next_day lib self df = (d, Inl e)"
proof -
  obtain d e where "prepare_data df ''temperature'' 7 = (d, Inl e)"
    using prepare_data_missing[OF assms] by blast
  then show ?thesis by (simp add: predict_next_day_def feature_columns_def)
qed

lemma predict_target_Inr:
  assumes "predict_target lib self X t = Inr v"
  shows "\<exists>scaler model scaled pred rest.
           scalers self t = Some scaler \<and> models self t = Some model
         \<and> scaler_transform lib scaler [last (frame_values X)] = Inr scaled
         \<and> forest_predict lib model scaled = Inr (pred # rest)
         \<and> v = round_ndigits 2 pred"
  using assms unfolding predict_target_def Let_def
  by (auto split: option.splits sum.splits list.splits)




lemma predict_next_day_cases:
  assumes "predict_next_day lib self df = (d, Inr m)"
  shows "has_features df
       \<and> (nrows (features_of df) = 0 \<longrightarrow> m = Map.empty)
       \<and> (0 < nrows (features_of df) \<longrightarrow>
            (\<forall>t\<in>set feature_columns. \<exists>v. predict_target lib self (features_of df) t = Inr v \<and> m t = Some v)
          \<and> (\<forall>t. t \<notin> set feature_columns \<longrightarrow> m t = None))"
proof -
  have hf: "has_features df"
    using assms predict_next_day_missing[of df lib self] by auto
  have run: "predict_loop lib self df Map.empty feature_columns = (d, Inr m)"
    using assms by (simp add: predict_next_day_def)
  have a: "m = Map.empty" if "nrows (features_of df) = 0"
    using predict_loop_empty[OF hf that subset_refl, of lib self Map.empty] run by simp
  have b: "(\<forall>t\<in>set feature_columns. \<exists>v. predict_target lib self (features_of df) t = Inr v \<and> m t = Some v)
          \<and> (\<forall>t. t \<notin> set feature_columns \<longrightarrow> m t = None)" if "0 < nrows (features_of df)"
    using predict_loop_nonempty[OF hf that subset_refl run] by simp
  show ?thesis using hf a b by blast
qed

lemma predict_next_day_dom:
  assumes "predict_next_day lib self df = (d, Inr m)"
  shows "dom m = {} \<or> dom m = set feature_columns"
proof (cases "nrows (features_of df) = 0")
  case True
  then show ?thesis using predict_next_day_cases[OF assms] by simp
next
  case False
  then have "(\<forall>t\<in>set feature_columns. \<exists>v. m t = Some v) \<and> (\<forall>t. t \<notin> set feature_columns \<longrightarrow> m t = None)"
    using predict_next_day_cases[OF assms] by blast
  then have "dom m = set feature_columns" by (auto simp: dom_def)
  then show ?thesis ..
qed





text \<open>No call returns a mapping with some but not all of the tracked attributes.\<close>

lemma predict_next_day_never_partial:
  "\<not> (\<exists>lib self df df' predictions.
         predict_next_day lib self df = (df', Inr predictions)
       \<and> dom predictions \<noteq> {} \<and> dom predictions \<noteq> set feature_columns)"
  using predict_next_day_dom by blast


section \<open>Concrete runs of the predictor\<close>

lemma stub_predict_target:
  "t \<in> set feature_columns \<Longrightarrow> predict_target stub_sklearn stub_bank X t = Inr (round_ndigits 2 20)"
  by (simp add: predict_target_def stub_sklearn_def stub_bank_def)

lemma eight_days_features: "nrows (features_of eight_days) = 1"
  using nrows_features_long[OF eight_days_ok(1,2,3)] eight_days_ok(4)
  by (simp add: eight_days_def)

lemma stub_predict_eight_days:
  "\<exists>d m. predict_next_day stub_sklearn stub_bank eight_days = (d, Inr m)"
proof -
  have "\<forall>t\<in>set feature_columns.
      predict_target stub_sklearn stub_bank (features_of eight_days) t = Inr (round_ndigits 2 20)"
    by (simp add: stub_predict_target)
  then have "\<exists>m. predict_loop stub_sklearn stub_bank eight_days Map.empty feature_columns
      = (if feature_columns = [] then eight_days else with_lags eight_days 7, Inr m)"
    using eight_days_ok(2) eight_days_features
    by (intro predict_loop_succeeds[where g = "\<lambda>t. round_ndigits 2 20"]) simp_all
  then show ?thesis unfolding predict_next_day_def by blast
qed






section \<open>No prediction available\<close>

text \<open>
  Claim C4, as amended. On a well-formed table with the five tracked columns:
  with fewer than k + 1 = 8 rows \<open>predict_next_day\<close> returns the empty mapping and raises
  nothing, whatever the object holds; a mapping it returns holds only attributes with a
  stored scaler and a stored forest, so no value is made up; and with at least 8 complete
  rows and a tracked attribute that has no stored scaler or no stored forest, it raises
  instead of returning a mapping without that attribute.
\<close>

theorem predict_next_day_unavailable:
  assumes "wf_frame df" "has_features df"
  shows "(nrows df < 7 + 1 \<longrightarrow> snd (predict_next_day lib self df) = Inr Map.empty)
       \<and> (\<forall>predictions. snd (predict_next_day lib self df) = Inr predictions \<longrightarrow>
            (\<forall>t\<in>dom predictions. scalers self t \<noteq> None \<and> models self t \<noteq> None))
       \<and> (no_missing df \<and> 7 + 1 \<le> nrows df
            \<and> (\<exists>t\<in>set feature_columns. scalers self t = None \<or> models self t = None) \<longrightarrow>
            (\<exists>e. snd (predict_next_day lib self df) = Inl e))"
proof (intro conjI impI allI)
  assume "nrows df < 7 + 1"
  then have "nrows (features_of df) = 0" using assms by (intro nrows_features_short) simp_all
  then have "predict_loop lib self df Map.empty feature_columns
      = (if feature_columns = [] then df else with_lags df 7, Inr Map.empty)"
    using assms(2) by (intro predict_loop_empty) simp_all
  then show "snd (predict_next_day lib self df) = Inr Map.empty"
    by (simp add: predict_next_day_def)
next
  fix predictions
  assume r: "snd (predict_next_day lib self df) = Inr predictions"
  then have run: "predict_next_day lib self df = (fst (predict_next_day lib self df), Inr predictions)"
    by (metis prod.collapse)
  note c = predict_next_day_cases[OF run]
  show "\<forall>t\<in>dom predictions. scalers self t \<noteq> None \<and> models self t \<noteq> None"
  proof
    fix t assume t: "t \<in> dom predictions"
    have nz: "0 < nrows (features_of df)" using c t by (cases "nrows (features_of df) = 0") auto
    have tr: "t \<in> set feature_columns" using c nz t by (auto simp: dom_def)
    obtain v where "predict_target lib self (features_of df) t = Inr v" using c nz tr by blast
    then show "scalers self t \<noteq> None \<and> models self t \<noteq> None"
      using predict_target_Inr by fastforce
  qed
next
  assume h: "no_missing df \<and> 7 + 1 \<le> nrows df
      \<and> (\<exists>t\<in>set feature_columns. scalers self t = None \<or> models self t = None)"
  then obtain t where t: "t \<in> set feature_columns" "scalers self t = None \<or> models self t = None"
    by blast
  have "nrows (features_of df) = nrows df - 7" using assms h by (intro nrows_features_long) simp_all
  then have nz: "0 < nrows (features_of df)" using h by simp
  show "\<exists>e. snd (predict_next_day lib self df) = Inl e"
  proof (cases "snd (predict_next_day lib self df)")
    case (Inl e)
    then show ?thesis by blast
  next
    case (Inr m)
    then have run: "predict_next_day lib self df = (fst (predict_next_day lib self df), Inr m)"
      by (metis prod.collapse)
    obtain v where "predict_target lib self (features_of df) t = Inr v"
      using predict_next_day_cases[OF run] nz t(1) by blast
    then have "scalers self t \<noteq> None \<and> models self t \<noteq> None"
      using predict_target_Inr by fastforce
    then have False using t(2) by auto
    then show ?thesis ..
  qed
qed

theorem predict_next_day_unavailable_witness:
  "wf_frame three_days \<and> has_features three_days \<and> nrows three_days < 7 + 1
   \<and> snd (predict_next_day stub_sklearn stub_bank three_days) = Inr Map.empty
   \<and> wf_frame eight_days \<and> has_features eight_days \<and> no_missing eight_days
   \<and> 7 + 1 \<le> nrows eight_days \<and> ''humidity'' \<in> set feature_columns
   \<and> scalers (new_bank :: (unit, real) bank) ''humidity'' = None
   \<and> (\<exists>e. snd (predict_next_day stub_sklearn (new_bank :: (unit, real) bank) eight_days) = Inl e)"
proof -
  have a: "snd (predict_next_day stub_sklearn stub_bank three_days) = Inr Map.empty"
    using predict_next_day_unavailable[OF three_days_ok(1,2), of stub_sklearn stub_bank]
      three_days_ok(3) by blast
  have h: "''humidity'' \<in> set feature_columns" by (simp add: feature_columns_def)
  have n: "scalers (new_bank :: (unit, real) bank) ''humidity'' = None" by (simp add: new_bank_def)
  have b: "\<exists>e. snd (predict_next_day stub_sklearn (new_bank :: (unit, real) bank) eight_days) = Inl e"
    using predict_next_day_unavailable[OF eight_days_ok(1,2), of stub_sklearn new_bank]
      eight_days_ok(3,4) h n by blast
  show ?thesis using a b h n three_days_ok eight_days_ok by blast
qed

text \<open>
  The claim as stated has the attribute left out of the returned mapping when no model is
  stored. With eight complete rows and a new object, \<open>self.scalers['temperature']\<close> raises
  KeyError and no mapping is returned.
\<close>

theorem predict_next_day_no_model_counterexample:
  "scalers (new_bank :: (unit, real) bank) ''temperature'' = None
   \<and> models (new_bank :: (unit, real) bank) ''temperature'' = None
   \<and> 7 + 1 \<le> nrows eight_days
   \<and> snd (predict_next_day stub_sklearn new_bank eight_days) = Inl (KeyError ''temperature'')"
proof -
  have "predict_target stub_sklearn new_bank (features_of eight_days) ''temperature''
      = Inl (KeyError ''temperature'')"
    by (simp add: predict_target_def new_bank_def)
  then have "predict_loop stub_sklearn new_bank eight_days Map.empty
      (''temperature'' # [''humidity'', ''wind_speed'', ''precipitation'', ''pressure''])
      = (with_lags eight_days 7, Inl (KeyError ''temperature''))"
    using eight_days_ok(2) eight_days_features
    by (intro predict_loop_raises) (simp_all add: feature_columns_def)
  then show ?thesis using eight_days_ok(4)
    by (simp add: predict_next_day_def feature_columns_def new_bank_def)
qed

section \<open>Training twice\<close>

lemma ten_days_ok:
  "wf_frame ten_days" "has_features ten_days" "no_missing ten_days" "7 \<le> nrows ten_days"
  by (simp_all add: wf_frame_def has_features_def no_missing_def columns_def ten_days_def
      feature_columns_def)

lemma train_loop_bank:
  "\<exists>ms ss e. \<forall>self.
      snd (train_loop lib self df ts)
        = (self\<lparr>models := models self ++ ms, scalers := scalers self ++ ss\<rparr>, e)
    \<and> (e = None \<longrightarrow> dom ms = set ts \<and> dom ss = set ts)"
proof (induction ts arbitrary: df)
  case Nil
  have "\<forall>self. snd (train_loop lib self df [])
        = (self\<lparr>models := models self ++ Map.empty, scalers := scalers self ++ Map.empty\<rparr>, None)
      \<and> (None = (None :: error option) \<longrightarrow> dom (Map.empty :: string \<rightharpoonup> 'c) = set []
            \<and> dom (Map.empty :: string \<rightharpoonup> 'b) = set [])"
    by simp
  then show ?case by blast
next
  case (Cons t rest)
  obtain df' r where p: "prepare_data df t 7 = (df', r)" by (cases "prepare_data df t 7")
  have stop: "\<exists>ms ss e. \<forall>self.
      (self, Some x) = (self\<lparr>models := models self ++ ms, scalers := scalers self ++ ss\<rparr>, e)
    \<and> (e = None \<longrightarrow> dom ms = set (t # rest) \<and> dom ss = set (t # rest))" for x :: error
    by (rule exI[of _ Map.empty], rule exI[of _ Map.empty], rule exI[of _ "Some x"]) simp
  show ?case
  proof (cases r)
    case (Inl x)
    then have "snd (train_loop lib self df (t # rest)) = (self, Some x)" for self
      using p by simp
    then show ?thesis using stop[of x] by simp
  next
    case (Inr xy)
    obtain X y where xy: "xy = (X, y)" by (cases xy)
    show ?thesis
    proof (cases "fit_target lib X y")
      case (Inl x)
      then have "snd (train_loop lib self df (t # rest)) = (self, Some x)" for self
        using p Inr xy by simp
      then show ?thesis using stop[of x] by simp
    next
      case fit: (Inr sm)
      obtain scaler model where sm: "sm = (scaler, model)" by (cases sm)
      obtain ms ss e where ih: "\<forall>self.
          snd (train_loop lib self df' rest)
            = (self\<lparr>models := models self ++ ms, scalers := scalers self ++ ss\<rparr>, e)
        \<and> (e = None \<longrightarrow> dom ms = set rest \<and> dom ss = set rest)"
        using Cons.IH[of df'] by (elim exE) auto
      have step: "snd (train_loop lib self df (t # rest))
          = snd (train_loop lib (self\<lparr>models := (models self)(t \<mapsto> model),
                                        scalers := (scalers self)(t \<mapsto> scaler)\<rparr>) df' rest)" for self
        using p Inr xy fit sm by simp
      have m: "(m(t \<mapsto> v)) ++ n = m ++ ([t \<mapsto> v] ++ n)" for m n :: "string \<rightharpoonup> 'x" and v
        by (rule ext) (simp add: map_add_def split: option.splits)
      have eq: "snd (train_loop lib self df (t # rest))
            = (self\<lparr>models := models self ++ ([t \<mapsto> model] ++ ms),
                     scalers := scalers self ++ ([t \<mapsto> scaler] ++ ss)\<rparr>, e)" for self
      proof -
        let ?s1 = "self\<lparr>models := (models self)(t \<mapsto> model),
                         scalers := (scalers self)(t \<mapsto> scaler)\<rparr>"
        have "snd (train_loop lib self df (t # rest))
            = (?s1\<lparr>models := models ?s1 ++ ms, scalers := scalers ?s1 ++ ss\<rparr>, e)"
          using ih step[of self] by simp
        moreover have "models ?s1 ++ ms = models self ++ ([t \<mapsto> model] ++ ms)"
          using m[of "models self" model ms] by simp
        moreover have "scalers ?s1 ++ ss = scalers self ++ ([t \<mapsto> scaler] ++ ss)"
          using m[of "scalers self" scaler ss] by simp
        ultimately show ?thesis by simp
      qed
      have "e = None \<longrightarrow> dom ([t \<mapsto> model] ++ ms) = set (t # rest)
              \<and> dom ([t \<mapsto> scaler] ++ ss) = set (t # rest)"
        using ih by auto
      then have "\<forall>self.
          snd (train_loop lib self df (t # rest))
            = (self\<lparr>models := models self ++ ([t \<mapsto> model] ++ ms),
                     scalers := scalers self ++ ([t \<mapsto> scaler] ++ ss)\<rparr>, e)
        \<and> (e = None \<longrightarrow> dom ([t \<mapsto> model] ++ ms) = set (t # rest)
              \<and> dom ([t \<mapsto> scaler] ++ ss) = set (t # rest))"
        using eq by blast
      then show ?thesis by blast
    qed
  qed
qed

lemma train_missing:
  assumes "\<not> has_features df"
  shows "\<exists>d b e. train lib self df = (d, b, Some e)"
proof -
  obtain d e where "prepare_data df ''temperature'' 7 = (d, Inl e)"
    using prepare_data_missing[OF assms] by blast
  then show ?thesis by (simp add: train_def feature_columns_def)
qed

lemma train_with_lags:
  assumes "has_features df"
  shows "train lib self (with_lags df 7) = train lib self df"
  using prepare_data_again[OF assms, of 7 "''temperature''"]
  by (simp add: train_def feature_columns_def)

lemma fit_target_enough:
  assumes "2 \<le> nrows X"
    and "\<And>A. \<exists>s. scaler_fit lib A = Inr s"
    and "\<And>s A. \<exists>B. scaler_transform lib s A = Inr B"
    and "\<And>n g A y. \<exists>m. forest_fit lib n g A y = Inr m"
    and "\<And>m A. \<exists>p. forest_predict lib m A = Inr p"
  shows "\<exists>r. fit_target lib X y = Inr r"
proof -
  have "nrows X - (nrows X + 4) div 5 \<noteq> 0" using assms(1) by arith
  then obtain a b c d where sp: "train_test_split lib X y = Inr (a, b, c, d)"
    by (simp add: train_test_split_def Let_def)
  obtain s where s: "scaler_fit lib (frame_values a) = Inr s" using assms(2) by blast
  obtain A where A: "scaler_transform lib s (frame_values a) = Inr A" using assms(3) by blast
  obtain B where B: "scaler_transform lib s (frame_values b) = Inr B" using assms(3) by blast
  obtain m where m: "forest_fit lib 100 (rng_seeded lib 42) A c = Inr m" using assms(4) by blast
  obtain p where p: "forest_predict lib m B = Inr p" using assms(5) by blast
  show ?thesis by (simp add: fit_target_def sp s A B m p)
qed

lemma train_loop_succeeds:
  assumes "has_features df" "set ts \<subseteq> set feature_columns"
    and "\<forall>t\<in>set ts. \<exists>r. fit_target lib (features_of df) (target_of df t) = Inr r"
  shows "\<exists>b. train_loop lib self df ts = (if ts = [] then df else with_lags df 7, b, None)"
  using assms
proof (induction ts arbitrary: df self)
  case Nil
  then show ?case by simp
next
  case (Cons t rest)
  have p: "prepare_data df t 7 = (with_lags df 7, Inr (features_of df, target_of df t))"
    using Cons.prems by (intro prepare_data_target) simp_all
  obtain scaler model where f: "fit_target lib (features_of df) (target_of df t) = Inr (scaler, model)"
    using Cons.prems(3) by fastforce
  have hf: "has_features (with_lags df 7)" using Cons.prems(1) by (rule has_features_with_lags)
  have sub: "set rest \<subseteq> set feature_columns" using Cons.prems(2) by simp
  have fits: "\<forall>u\<in>set rest. \<exists>r. fit_target lib (features_of (with_lags df 7)) (target_of (with_lags df 7) u) = Inr r"
    using Cons.prems(3) by (simp add: features_of_with_lags target_of_with_lags)
  have i: "(if rest = [] then with_lags df 7 else with_lags (with_lags df 7) 7) = with_lags df 7"
    by (simp add: with_lags_idem)
  have "\<exists>b. train_loop lib s1 (with_lags df 7) rest = (with_lags df 7, b, None)" for s1
    using Cons.IH[OF hf sub fits, of s1] unfolding i .
  then show ?case using p f by simp
qed

lemma stub_train_ten_days:
  "\<exists>d b. train stub_sklearn self ten_days = (d, b, None)"
proof -
  have "nrows (features_of ten_days) = nrows ten_days - 7"
    using ten_days_ok by (intro nrows_features_long)
  then have n: "2 \<le> nrows (features_of ten_days)" by (simp add: ten_days_def)
  have "\<exists>r. fit_target stub_sklearn (features_of ten_days) y = Inr r" for y
    using n by (rule fit_target_enough) (simp_all add: stub_sklearn_def)
  then have "\<exists>b. train_loop stub_sklearn self ten_days feature_columns
      = (if feature_columns = [] then ten_days else with_lags ten_days 7, b, None)"
    using ten_days_ok(2) by (intro train_loop_succeeds) simp_all
  then show ?thesis unfolding train_def by blast
qed

lemma map_add_twice: "(m ++ n) ++ n = m ++ n"
  by (rule ext) (simp add: map_add_def split: option.splits)

text \<open>
  Claim C6. The split and the forest are given the fixed seed 42, so what \<open>train\<close> stores
  depends on the table alone. When a run of \<open>train\<close> on a table completes, it has stored a
  scaler and a forest for every tracked attribute; a run on the same table from any other
  state of the object completes too, leaves the same frame and stores the same scaler and
  forest for every tracked attribute; and running \<open>train\<close> again on the same object and the
  frame the first run left behind changes neither.
\<close>

theorem train_twice_same_parameters:
  assumes "train lib b1 df = (d1, r1, None)"
  shows "(\<forall>t\<in>set feature_columns. models r1 t \<noteq> None \<and> scalers r1 t \<noteq> None)
       \<and> (\<exists>r2. train lib b2 df = (d1, r2, None)
              \<and> (\<forall>t\<in>set feature_columns. models r2 t = models r1 t \<and> scalers r2 t = scalers r1 t))
       \<and> train lib r1 d1 = (d1, r1, None)"
proof -
  have hf: "has_features df" using assms train_missing[of df lib b1] by auto
  have d1: "d1 = with_lags df 7" using train_frame[OF hf, of lib b1] assms by simp
  obtain ms ss e where b: "\<And>self. snd (train lib self df)
        = (self\<lparr>models := models self ++ ms, scalers := scalers self ++ ss\<rparr>, e)"
    and dm: "e = None \<longrightarrow> dom ms = set feature_columns \<and> dom ss = set feature_columns"
    using train_loop_bank[of lib df feature_columns] unfolding train_def by (elim exE) auto
  have e: "e = None" and r1: "r1 = b1\<lparr>models := models b1 ++ ms, scalers := scalers b1 ++ ss\<rparr>"
    using b[of b1] assms by simp_all
  have doms: "dom ms = set feature_columns" "dom ss = set feature_columns" using dm e by simp_all
  have run: "train lib self df
      = (d1, self\<lparr>models := models self ++ ms, scalers := scalers self ++ ss\<rparr>, None)" for self
    using b[of self] train_frame[OF hf, of lib self] d1 e by (simp add: prod_eq_iff)
  have stored: "\<forall>t\<in>set feature_columns. models r1 t \<noteq> None \<and> scalers r1 t \<noteq> None"
  proof
    fix t assume "t \<in> set feature_columns"
    then have "t \<in> dom ms" "t \<in> dom ss" using doms by simp_all
    then show "models r1 t \<noteq> None \<and> scalers r1 t \<noteq> None"
      unfolding r1 by (auto simp: map_add_def)
  qed
  have same: "\<forall>t\<in>set feature_columns.
      models (b2\<lparr>models := models b2 ++ ms, scalers := scalers b2 ++ ss\<rparr>) t = models r1 t
    \<and> scalers (b2\<lparr>models := models b2 ++ ms, scalers := scalers b2 ++ ss\<rparr>) t = scalers r1 t"
  proof
    fix t assume "t \<in> set feature_columns"
    then have "t \<in> dom ms" "t \<in> dom ss" using doms by simp_all
    then show "models (b2\<lparr>models := models b2 ++ ms, scalers := scalers b2 ++ ss\<rparr>) t = models r1 t
      \<and> scalers (b2\<lparr>models := models b2 ++ ms, scalers := scalers b2 ++ ss\<rparr>) t = scalers r1 t"
      unfolding r1 by (auto simp: map_add_def)
  qed
  have again: "train lib r1 d1 = (d1, r1, None)"
  proof -
    have "train lib r1 d1 = train lib r1 df" unfolding d1 using hf by (rule train_with_lags)
    also have "\<dots> = (d1, r1\<lparr>models := models r1 ++ ms, scalers := scalers r1 ++ ss\<rparr>, None)"
      by (rule run)
    also have "r1\<lparr>models := models r1 ++ ms, scalers := scalers r1 ++ ss\<rparr> = r1"
      unfolding r1 by (simp add: map_add_twice)
    finally show ?thesis .
  qed
  show ?thesis using stored same again run[of b2] by blast
qed

theorem train_twice_same_parameters_witness:
  "\<exists>d1 r1. train stub_sklearn new_bank ten_days = (d1, r1, None)
     \<and> (\<forall>t\<in>set feature_columns. models r1 t \<noteq> None \<and> scalers r1 t \<noteq> None)
     \<and> (\<exists>r2. train stub_sklearn stub_bank ten_days = (d1, r2, None)
            \<and> (\<forall>t\<in>set feature_columns. models r2 t = models r1 t \<and> scalers r2 t = scalers r1 t))
     \<and> train stub_sklearn r1 d1 = (d1, r1, None)"
proof -
  obtain d1 r1 where run: "train stub_sklearn new_bank ten_days = (d1, r1, None)"
    using stub_train_ten_days[of new_bank] by blast
  show ?thesis using run train_twice_same_parameters[OF run, of stub_bank] by blast
qed

section \<open>The store\<close>

lemma lookup_all_present:
  "list_all (\<lambda>k. weather_data k \<noteq> None) ks \<Longrightarrow>
   lookup_all weather_data ks = Inr (map (\<lambda>k. the (weather_data k)) ks)"
  by (induction ks) auto

lemma historical_keys_subset: "set historical_keys \<subseteq> set current_keys"
  by (simp add: historical_keys_def current_keys_def)

lemma store_current_weather_ok:
  assumes "list_all (\<lambda>k. weather_data k \<noteq> None) current_keys"
  shows "store_current_weather ts d weather_data st =
     (True, st\<lparr>current_weather := current_weather st
                    @ [Txt ts # map (\<lambda>k. the (weather_data k)) current_keys],
                historical_weather := historical_weather st
                    @ [Txt d # map (\<lambda>k. the (weather_data k)) historical_keys]\<rparr>)"
proof -
  have "list_all (\<lambda>k. weather_data k \<noteq> None) historical_keys"
    using assms historical_keys_subset by (auto simp: list_all_iff)
  then show ?thesis using assms
    by (simp add: store_current_weather_def lookup_all_present Let_def)
qed

lemma lookup_all_Inr:
  "lookup_all weather_data ks = Inr vs \<Longrightarrow> list_all (\<lambda>k. weather_data k \<noteq> None) ks"
  by (induction ks arbitrary: vs) (auto split: option.splits sum.splits)

lemma store_current_weather_True:
  assumes "fst (store_current_weather ts d weather_data st)"
  shows "list_all (\<lambda>k. weather_data k \<noteq> None) current_keys"
proof (cases "lookup_all weather_data current_keys")
  case (Inl e)
  then show ?thesis using assms by (simp add: store_current_weather_def)
next
  case (Inr vs)
  then show ?thesis by (rule lookup_all_Inr)
qed

section \<open>Storing a reading twice\<close>

text \<open>
  Claim C9. A store that succeeds appends exactly one record to the current-conditions file
  and one to the historical file. A second store of the same reading succeeds as well and
  appends the same fields again (after its own time stamp and date): the files then hold
  two more records than before, and nothing is removed as a duplicate.
\<close>

theorem store_twice_keeps_both:
  assumes ok: "fst (store_current_weather ts d weather_data st)"
  shows "\<exists>st1 st2 cur hist.
           store_current_weather ts d weather_data st = (True, st1)
         \<and> current_weather st1 = current_weather st @ [Txt ts # cur]
         \<and> historical_weather st1 = historical_weather st @ [Txt d # hist]
         \<and> store_current_weather ts' d' weather_data st1 = (True, st2)
         \<and> current_weather st2 = current_weather st @ [Txt ts # cur, Txt ts' # cur]
         \<and> historical_weather st2 = historical_weather st @ [Txt d # hist, Txt d' # hist]
         \<and> length (current_weather st2) = length (current_weather st) + 2
         \<and> length (historical_weather st2) = length (historical_weather st) + 2"
proof -
  have assms: "list_all (\<lambda>k. weather_data k \<noteq> None) current_keys"
    using ok by (rule store_current_weather_True)
  let ?cur = "map (\<lambda>k. the (weather_data k)) current_keys"
  let ?hist = "map (\<lambda>k. the (weather_data k)) historical_keys"
  let ?st1 = "st\<lparr>current_weather := current_weather st @ [Txt ts # ?cur],
                  historical_weather := historical_weather st @ [Txt d # ?hist]\<rparr>"
  let ?st2 = "?st1\<lparr>current_weather := current_weather ?st1 @ [Txt ts' # ?cur],
                    historical_weather := historical_weather ?st1 @ [Txt d' # ?hist]\<rparr>"
  have a: "store_current_weather ts d weather_data st = (True, ?st1)"
    using assms by (rule store_current_weather_ok)
  have b: "store_current_weather ts' d' weather_data ?st1 = (True, ?st2)"
    using assms by (rule store_current_weather_ok)
  show ?thesis
    by (rule exI[of _ ?st1], rule exI[of _ ?st2], rule exI[of _ ?cur], rule exI[of _ ?hist])
       (simp add: a b)
qed

theorem store_twice_keeps_both_witness:
  "fst (store_current_weather ''2024-05-01 10:00:00'' ''2024-05-01'' sample_reading empty_store)
   \<and> (\<exists>st1 st2 cur hist.
           store_current_weather ''2024-05-01 10:00:00'' ''2024-05-01'' sample_reading empty_store = (True, st1)
         \<and> current_weather st1 = current_weather empty_store @ [Txt ''2024-05-01 10:00:00'' # cur]
         \<and> historical_weather st1 = historical_weather empty_store @ [Txt ''2024-05-01'' # hist]
         \<and> store_current_weather ''2024-05-01 10:00:00'' ''2024-05-01'' sample_reading st1 = (True, st2)
         \<and> current_weather st2 = current_weather empty_store
              @ [Txt ''2024-05-01 10:00:00'' # cur, Txt ''2024-05-01 10:00:00'' # cur]
         \<and> historical_weather st2 = historical_weather empty_store
              @ [Txt ''2024-05-01'' # hist, Txt ''2024-05-01'' # hist]
         \<and> length (current_weather st2) = length (current_weather empty_store) + 2
         \<and> length (historical_weather st2) = length (historical_weather empty_store) + 2)"
proof -
  have "list_all (\<lambda>k. sample_reading k \<noteq> None) current_keys"
    by (simp add: sample_reading_def current_keys_def)
  then have a: "fst (store_current_weather ''2024-05-01 10:00:00'' ''2024-05-01'' sample_reading empty_store)"
    by (simp add: store_current_weather_ok)
  show ?thesis
    using a store_twice_keeps_both[OF a, of "''2024-05-01 10:00:00''" "''2024-05-01''"]
    by blast
qed





section \<open>Summary statistics\<close>











end
